theory Spec2Isabelle
  imports Main
begin

section \<open>The navigation component: data\<close>

text \<open>
  The development embeds \<^verbatim>\<open>src/components/navigation/navigation.tsx\<close>: one React
  function component, \<^verbatim>\<open>Navigation\<close>, with seven \<^verbatim>\<open>useState\<close> cells, two effects
  and a handful of event handlers. JavaScript strings are modelled as \<^typ>\<open>string\<close>,
  one \<^typ>\<open>char\<close> per UTF-16 code unit (wallet addresses, chain ids and paths are ASCII).
  \<^verbatim>\<open>null\<close> is \<^term>\<open>None\<close>.
\<close>

text \<open>
  \<^verbatim>\<open>NavigationData\<close> is declared in \<^verbatim>\<open>@/types/types\<close>; the component reads its fields
  \<^verbatim>\<open>path\<close> and \<^verbatim>\<open>label\<close> (line 175). The list \<^verbatim>\<open>navigations\<close> itself comes from
  \<^verbatim>\<open>./navigation.data\<close> and is a parameter of the model.
\<close>

record NavigationData =
  path :: string
  label :: string

text \<open>
  What lines 176-214 render for one entry, as far as it depends on the entry and on the
  current path: the React key, the link target, the \<^verbatim>\<open>color\<close> of the \<^verbatim>\<open>sx\<close> object and
  the text. No \<^verbatim>\<open>className\<close> is passed, so the selector \<^verbatim>\<open>&.current>div\<close> of line 197
  never applies; the other style entries are constants.
\<close>

record rendered_link =
  key :: string
  href :: string
  color :: string
  children :: string

section \<open>Navigation view\<close>

text \<open>
  Lines 183 and 195. The object literal first sets
  \<^verbatim>\<open>color: currentPath === destination ? "" : "white"\<close>; the later spread
  \<^verbatim>\<open>...destination === "/" && { color: "primary.main" }\<close> overwrites that property when
  the destination is the root path (spreading \<^verbatim>\<open>false\<close> adds nothing).
\<close>

definition link_color :: "string \<Rightarrow> string \<Rightarrow> string" where
  "link_color currentPath destination =
     (let color0 = (if currentPath = destination then '''' else ''white'')
      in if destination = ''/'' then ''primary.main'' else color0)"

definition render_link :: "string \<Rightarrow> NavigationData \<Rightarrow> rendered_link" where
  "render_link currentPath n =
     \<lparr>key = label n, href = path n, color = link_color currentPath (path n),
      children = label n\<rparr>"

text \<open>Line 175: \<^verbatim>\<open>navigations.map(...)\<close>, one link per entry, in order.\<close>

definition render_navigation :: "NavigationData list \<Rightarrow> string \<Rightarrow> rendered_link list" where
  "render_navigation navigations currentPath = map (render_link currentPath) navigations"

text \<open>
  The only treatment that depends on the comparison with the current path is the colour
  of line 183: the empty string for the current entry, \<^verbatim>\<open>"white"\<close> for the others.
\<close>

definition marked_current :: "rendered_link \<Rightarrow> bool" where
  "marked_current l = (color l = '''')"

section \<open>Address shortening\<close>

text \<open>
  Lines 160-162. \<^verbatim>\<open>substring(0, 4)\<close> is the first four code units (fewer when the string
  is shorter); \<^verbatim>\<open>substring(address.length - 4)\<close> clamps a negative start to 0, which is
  what truncating subtraction on \<^typ>\<open>nat\<close> does.
\<close>

definition shortenAddress :: "string \<Rightarrow> string" where
  "shortenAddress address =
     take 4 address @ ''...'' @ drop (length address - 4) address"

section \<open>Numbers and chain ids\<close>

text \<open>
  A JavaScript number is a double. The ones the component handles come from parsing an
  integer or from converting one, so a number is here \<^verbatim>\<open>NaN\<close>, an infinity, or \<open>Num n\<close>
  for a double whose value is the integer \<open>n\<close>.
\<close>

datatype js_number = NaN | Num int | Infinity | NegInfinity

text \<open>
  \<^verbatim>\<open>NetworkInfo\<close> is declared in \<^verbatim>\<open>@/types/types\<close>; the component builds it with the
  fields \<^verbatim>\<open>id\<close> and \<^verbatim>\<open>name\<close> (lines 49-52, 74-77).
\<close>

record NetworkInfo =
  id' :: js_number
  name :: string

text \<open>
  The double nearest to a natural number, ties going to the even significand: up to
  \<open>2\<^sup>5\<^sup>3\<close> every integer is a double; above, the number keeps its 53 leading bits,
  rounded; a result of \<open>2\<^sup>1\<^sup>0\<^sup>2\<^sup>4\<close> or more is infinite (\<^term>\<open>None\<close>).
\<close>

fun bitlen :: "nat \<Rightarrow> nat" where
  "bitlen n = (if n = 0 then 0 else Suc (bitlen (n div 2)))"

declare bitlen.simps [simp del]

definition round_double :: "nat \<Rightarrow> nat option" where
  "round_double n =
     (if n < 2 ^ 53 then Some n
      else
        (let e = bitlen n - 53; q = n div 2 ^ e; r = n mod 2 ^ e; h = 2 ^ (e - 1);
             q' = (if h < r \<or> (r = h \<and> odd q) then q + 1 else q);
             x = q' * 2 ^ e
         in if 2 ^ 1024 \<le> x then None else Some x))"

text \<open>
  The number for a mathematical integer: what \<^verbatim>\<open>parseInt\<close> returns for the integer it
  has read, and what \<^verbatim>\<open>Number(network.chainId)\<close> (line 75) returns for a \<^verbatim>\<open>bigint\<close>.
\<close>

definition to_number :: "int \<Rightarrow> js_number" where
  "to_number i =
     (case round_double (nat \<bar>i\<bar>) of
        None \<Rightarrow> (if i < 0 then NegInfinity else Infinity)
      | Some x \<Rightarrow> Num (if i < 0 then - int x else int x))"

definition is_ws :: "char \<Rightarrow> bool" where
  "is_ws c = (c \<in> set [CHR 0x09, CHR 0x0A, CHR 0x0B, CHR 0x0C, CHR 0x0D, CHR 0x20, CHR 0xA0])"

definition hex_digit :: "char \<Rightarrow> nat option" where
  "hex_digit c =
     (let n = (of_char c :: nat)
      in if 48 \<le> n \<and> n \<le> 57 then Some (n - 48)
         else if 97 \<le> n \<and> n \<le> 102 then Some (n - 87)
         else if 65 \<le> n \<and> n \<le> 70 then Some (n - 55)
         else None)"

definition is_hex :: "char \<Rightarrow> bool" where
  "is_hex c = (hex_digit c \<noteq> None)"

text \<open>The value of a string of hexadecimal digits, most significant digit first.\<close>

definition hex_value :: "string \<Rightarrow> nat" where
  "hex_value ds = foldl (\<lambda>a c. 16 * a + the (hex_digit c)) 0 ds"

text \<open>
  \<^verbatim>\<open>parseInt(chainId, 16)\<close> (lines 48, 112), after the language standard: leading white
  space is dropped, then an optional sign, then an optional \<^verbatim>\<open>0x\<close> or \<^verbatim>\<open>0X\<close>; the longest
  run of hexadecimal digits that follows is read as an integer, and the result is the
  number for that integer with its sign; \<^verbatim>\<open>NaN\<close> results when the run is empty. (For more
  than 20 digits the standard allows an implementation to read the further digits as
  zeros; the engines in use read them all, as here.)
\<close>

definition parseInt16 :: "string \<Rightarrow> js_number" where
  "parseInt16 s =
     (let s1 = dropWhile is_ws s;
          sign = (case s1 of [] \<Rightarrow> 1 | c # _ \<Rightarrow> if c = CHR ''-'' then - 1 else (1::int));
          s2 = (case s1 of [] \<Rightarrow> s1 | c # r \<Rightarrow> if c = CHR ''+'' \<or> c = CHR ''-'' then r else s1);
          s3 = (case s2 of
                  a # b # r \<Rightarrow> if a = CHR ''0'' \<and> (b = CHR ''x'' \<or> b = CHR ''X'') then r else s2
                | _ \<Rightarrow> s2);
          z = takeWhile is_hex s3
      in if z = [] then NaN else to_number (sign * int (hex_value z)))"

fun decimal :: "nat \<Rightarrow> string" where
  "decimal n =
     (if n < 10 then [''0123456789'' ! n] else decimal (n div 10) @ [''0123456789'' ! (n mod 10)])"

declare decimal.simps [simp del]

text \<open>
  The digits a double above \<open>2\<^sup>5\<^sup>3\<close> is printed with: the shortest digit string \<open>s\<close>
  such that \<open>s\<close> followed by \<open>e\<close> zeros rounds to the double, the closest such value when
  there are several, the even \<open>s\<close> when two are equally close. At a given \<open>e\<close> only the
  two multiples of \<open>10\<^sup>e\<close> around the double can qualify; the largest \<open>e\<close> with a
  qualifying multiple gives the shortest string, and \<open>e = 0\<close> always qualifies.
\<close>

definition pick_digits :: "nat \<Rightarrow> nat \<Rightarrow> nat option" where
  "pick_digits x e =
     (let s0 = x div 10 ^ e; s1 = s0 + 1;
          ok0 = (0 < s0 \<and> round_double (s0 * 10 ^ e) = Some x);
          ok1 = (round_double (s1 * 10 ^ e) = Some x);
          d0 = x - s0 * 10 ^ e; d1 = s1 * 10 ^ e - x
      in if ok0 \<and> ok1 then Some (if d0 < d1 \<or> (d0 = d1 \<and> even s0) then s0 else s1)
         else if ok0 then Some s0 else if ok1 then Some s1 else None)"

fun shortest_digits :: "nat \<Rightarrow> nat \<Rightarrow> nat \<times> nat" where
  "shortest_digits x 0 = (x, 0)"
| "shortest_digits x (Suc e) =
     (case pick_digits x (Suc e) of Some s \<Rightarrow> (s, Suc e) | None \<Rightarrow> shortest_digits x e)"

text \<open>
  The text of a double with a non-negative integer value. Up to \<open>2\<^sup>5\<^sup>3\<close> no shorter
  digit string rounds to it, and the text is the decimal numeral. Above, the shortest
  digits are followed by zeros while the number has at most 21 digits, and written with
  an exponent otherwise.
\<close>

definition double_digits :: "nat \<Rightarrow> string" where
  "double_digits x =
     (if x \<le> 2 ^ 53 then decimal x
      else
        (let (s, e) = shortest_digits x (length (decimal x)); ds = decimal s; n = length ds + e
         in if n \<le> 21 then ds @ replicate e (CHR ''0'')
            else (if length ds = 1 then ds else hd ds # CHR ''.'' # tl ds)
                   @ ''e+'' @ decimal (n - 1)))"

text \<open>The text a template literal inserts for a number (lines 51, 115).\<close>

definition number_to_string :: "js_number \<Rightarrow> string" where
  "number_to_string x =
     (case x of
        NaN \<Rightarrow> ''NaN''
      | Infinity \<Rightarrow> ''Infinity''
      | NegInfinity \<Rightarrow> ''-Infinity''
      | Num n \<Rightarrow> (if n < 0 then ''-'' else []) @ double_digits (nat \<bar>n\<bar>))"

text \<open>Lines 49-52 and 113-116: the network record both listeners build.\<close>

definition unknown_network :: "js_number \<Rightarrow> NetworkInfo" where
  "unknown_network newChainId =
     \<lparr>id' = newChainId, name = ''Unknown Network ('' @ number_to_string newChainId @ '')''\<rparr>"

section \<open>Wallet session: state\<close>

text \<open>
  A value caught by \<^verbatim>\<open>catch (err)\<close>: an \<^verbatim>\<open>Error\<close> object with its message, or anything
  else (line 121 tells them apart).
\<close>

datatype thrown = Error string | NotAnError

text \<open>
  How a request to the wallet settles. \<^verbatim>\<open>Accounts\<close> answers \<^verbatim>\<open>eth_requestAccounts\<close>;
  \<^verbatim>\<open>Balance t\<close> answers \<^verbatim>\<open>getBalance\<close> with an amount that \<^verbatim>\<open>ethers.formatEther\<close> prints
  as \<open>t\<close> (the library is not part of the repository, so the printed text stands for
  the amount); \<^verbatim>\<open>Network c n\<close> answers \<^verbatim>\<open>getNetwork\<close> with chain id \<open>c\<close> and name \<open>n\<close>.
\<close>

datatype reply =
    Rejected thrown
  | Accounts "string list"
  | Balance string
  | Network int string

text \<open>
  \<^verbatim>\<open>fetchWalletData\<close> is awaited by \<^verbatim>\<open>connectWallet\<close> (line 100), which goes on when it
  settles; its other callers (lines 37, 54, 105) do nothing after it.
\<close>

datatype cont = Detached | ConnectWallet

text \<open>An asynchronous call that is suspended at an \<^verbatim>\<open>await\<close> (lines 96, 70, 73).\<close>

datatype task =
    RequestAccounts
  | GetBalance string cont
  | GetNetwork cont

text \<open>
  The listeners the component registers on the wallet. \<^verbatim>\<open>handleChainChanged\<close> is a
  closure of the effect of lines 44-63 and carries the \<^verbatim>\<open>walletAddress\<close> of the render
  that created it; the other two are the arrow functions of lines 102 and 111.
\<close>

datatype chain_listener = HandleChainChanged "string option" | ConnectChainChanged

datatype accounts_listener = ConnectAccountsChanged

text \<open>
  The seven state cells of lines 23-29, what the component touches of \<^verbatim>\<open>window\<close>
  (whether \<^verbatim>\<open>window.ethereum\<close> is injected, its \<^verbatim>\<open>selectedAddress\<close>, its listeners per
  event, the clipboard), and the runtime: pending timers with the time they are due, the
  clock in milliseconds, the suspended calls, and the \<^verbatim>\<open>walletAddress\<close> for which the
  effect of lines 44-63 last ran.
\<close>

record world =
  walletAddress :: "string option"
  error :: "string option"
  anchorEl :: "nat option"
  copied :: bool
  balance :: "string option"
  network :: "NetworkInfo option"
  loading :: bool
  ethereum :: bool
  selectedAddress :: "string option"
  accountsChanged :: "accounts_listener list"
  chainChanged :: "chain_listener list"
  clipboard :: "string option"
  timers :: "nat list"
  now :: nat
  pending :: "task list"
  effectDep :: "string option"

text \<open>A string or \<^verbatim>\<open>null\<close> in a condition: \<^verbatim>\<open>null\<close> and the empty string count as false.\<close>

definition truthy :: "string option \<Rightarrow> bool" where
  "truthy a = (a \<noteq> None \<and> a \<noteq> Some [])"

section \<open>Wallet session: operations\<close>

text \<open>
  Lines 65-70, up to the first \<^verbatim>\<open>await\<close>: the loading flag is set and the balance is
  requested. Every caller runs with \<^verbatim>\<open>window.ethereum\<close> present (lines 35, 45, 90); a
  request that fails, for whatever reason, is a \<^term>\<open>Rejected\<close> reply.
\<close>

definition fetchWalletData :: "string \<Rightarrow> cont \<Rightarrow> world \<Rightarrow> world" where
  "fetchWalletData address k w =
     w\<lparr>loading := True, pending := pending w @ [GetBalance address k]\<rparr>"

text \<open>
  What runs once \<^verbatim>\<open>fetchWalletData\<close> has settled (it never rejects: it catches
  everything). For \<^verbatim>\<open>connectWallet\<close> these are lines 102-117, the two registrations, and
  the \<^verbatim>\<open>finally\<close> of lines 122-124.
\<close>

definition after_fetch :: "cont \<Rightarrow> world \<Rightarrow> world" where
  "after_fetch k w =
     (case k of
        Detached \<Rightarrow> w
      | ConnectWallet \<Rightarrow>
          w\<lparr>accountsChanged := accountsChanged w @ [ConnectAccountsChanged],
            chainChanged := chainChanged w @ [ConnectChainChanged],
            loading := False\<rparr>)"

text \<open>Lines 80-85: the \<^verbatim>\<open>catch\<close> and \<^verbatim>\<open>finally\<close> of \<^verbatim>\<open>fetchWalletData\<close>.\<close>

definition fetch_failed :: "cont \<Rightarrow> world \<Rightarrow> world" where
  "fetch_failed k w =
     after_fetch k (w\<lparr>error := Some ''Failed to load wallet data'', loading := False\<rparr>)"

text \<open>Lines 127-138 and 148-150.\<close>

definition handleClose :: "world \<Rightarrow> world" where
  "handleClose w = w\<lparr>anchorEl := None\<rparr>"

definition handleDisconnect :: "world \<Rightarrow> world" where
  "handleDisconnect w =
     (let w1 = handleClose (w\<lparr>walletAddress := None, balance := None, network := None\<rparr>)
      in if ethereum w1 then w1\<lparr>accountsChanged := [], chainChanged := []\<rparr> else w1)"

text \<open>
  Lines 88-96, up to the \<^verbatim>\<open>await\<close>. Without a provider the \<^verbatim>\<open>throw\<close> of line 91 is
  caught at line 119, which stores the message, and line 123 clears the loading flag.
\<close>

definition connectWallet :: "world \<Rightarrow> world" where
  "connectWallet w =
     (if \<not> ethereum w
      then w\<lparr>error := Some ''Please install MetaMask to continue'', loading := False\<rparr>
      else w\<lparr>loading := True, pending := pending w @ [RequestAccounts]\<rparr>)"

text \<open>Whether a reply answers the request a task is waiting for.\<close>

fun fits :: "task \<Rightarrow> reply \<Rightarrow> bool" where
  "fits t (Rejected e) = True"
| "fits RequestAccounts (Accounts accounts) = True"
| "fits (GetBalance address k) (Balance t) = True"
| "fits (GetNetwork k) (Network c n) = True"
| "fits t r = False"

text \<open>
  A suspended call goes on with the reply, up to its next \<^verbatim>\<open>await\<close> or to its end:
  lines 98-100 and 119-124 for \<^verbatim>\<open>connectWallet\<close>, lines 71-73 and 74-85 for
  \<^verbatim>\<open>fetchWalletData\<close>.
\<close>

fun settle :: "task \<Rightarrow> reply \<Rightarrow> world \<Rightarrow> world" where
  "settle RequestAccounts (Accounts accounts) w =
     (case accounts of
        [] \<Rightarrow> w\<lparr>loading := False\<rparr>
      | a # _ \<Rightarrow> fetchWalletData a ConnectWallet (w\<lparr>walletAddress := Some a\<rparr>))"
| "settle RequestAccounts (Rejected e) w =
     w\<lparr>error := Some (case e of Error m \<Rightarrow> m | NotAnError \<Rightarrow> ''Unknown error''),
       loading := False\<rparr>"
| "settle (GetBalance address k) (Balance t) w =
     w\<lparr>balance := Some (take 6 t), pending := pending w @ [GetNetwork k]\<rparr>"
| "settle (GetBalance address k) (Rejected e) w = fetch_failed k w"
| "settle (GetNetwork k) (Network c n) w =
     after_fetch k
       (w\<lparr>network := Some \<lparr>id' = to_number c, name = n\<rparr>, error := None, loading := False\<rparr>)"
| "settle (GetNetwork k) (Rejected e) w = fetch_failed k w"
| "settle t r w = w"

text \<open>The \<open>i\<close>-th suspended call receives its reply.\<close>

definition settle_at :: "nat \<Rightarrow> reply \<Rightarrow> world \<Rightarrow> world" where
  "settle_at i r w =
     (if i < length (pending w) \<and> fits (pending w ! i) r
      then settle (pending w ! i) r (w\<lparr>pending := take i (pending w) @ drop (Suc i) (pending w)\<rparr>)
      else w)"

text \<open>
  Lines 102-109 and 111-117, and the handler of lines 47-56, whose \<^verbatim>\<open>walletAddress\<close> is
  the one its closure captured.
\<close>

fun run_accounts_listener :: "accounts_listener \<Rightarrow> string list \<Rightarrow> world \<Rightarrow> world" where
  "run_accounts_listener ConnectAccountsChanged newAccounts w =
     (case newAccounts of
        a # _ \<Rightarrow> fetchWalletData a Detached (w\<lparr>walletAddress := Some a\<rparr>)
      | [] \<Rightarrow> handleDisconnect w)"

fun run_chain_listener :: "chain_listener \<Rightarrow> string \<Rightarrow> world \<Rightarrow> world" where
  "run_chain_listener (HandleChainChanged captured) chainId w =
     (let newChainId = parseInt16 chainId;
          w1 = w\<lparr>network := Some (unknown_network newChainId)\<rparr>
      in if truthy captured then fetchWalletData (the captured) Detached w1 else w1)"
| "run_chain_listener ConnectChainChanged chainId w =
     (let newChainId = parseInt16 chainId
      in w\<lparr>network := Some (unknown_network newChainId)\<rparr>)"

text \<open>
  The wallet emits an event: the listeners registered at that moment run in the order of
  their registration (the emitter iterates over a copy of its list).
\<close>

definition emit_accountsChanged :: "string list \<Rightarrow> world \<Rightarrow> world" where
  "emit_accountsChanged newAccounts w =
     fold (\<lambda>l. run_accounts_listener l newAccounts) (accountsChanged w) w"

definition emit_chainChanged :: "string \<Rightarrow> world \<Rightarrow> world" where
  "emit_chainChanged chainId w =
     fold (\<lambda>l. run_chain_listener l chainId) (chainChanged w) w"

text \<open>Lines 140-146 and 152-158.\<close>

definition handleClick :: "nat \<Rightarrow> world \<Rightarrow> world" where
  "handleClick currentTarget w =
     (if truthy (walletAddress w) then w\<lparr>anchorEl := Some currentTarget\<rparr> else connectWallet w)"

definition copyToClipboard :: "world \<Rightarrow> world" where
  "copyToClipboard w =
     (if truthy (walletAddress w)
      then w\<lparr>clipboard := walletAddress w, copied := True, timers := timers w @ [now w + 2000]\<rparr>
      else w)"

text \<open>
  Time passes: \<open>d\<close> milliseconds later every timer that has fallen due has run its
  callback \<^verbatim>\<open>() => setCopied(false)\<close> (line 156) and is gone. Nothing in the component
  cancels a timer.
\<close>

definition elapse :: "nat \<Rightarrow> world \<Rightarrow> world" where
  "elapse d w =
     (let t = now w + d
      in w\<lparr>now := t,
           copied := (if list_ex (\<lambda>x. x \<le> t) (timers w) then False else copied w),
           timers := filter (\<lambda>x. t < x) (timers w)\<rparr>)"

section \<open>Rendering cycle and events\<close>

text \<open>
  After a handler has run React renders again and, when \<^verbatim>\<open>walletAddress\<close> differs from
  the value the effect of lines 44-63 last saw, runs that effect's cleanup (line 61,
  which exists when the effect got past line 45) and the effect again (line 58). At most
  one listener of the effect is registered at a time, so removing it by value removes
  the very closure.
\<close>

definition commit :: "world \<Rightarrow> world" where
  "commit w =
     (if walletAddress w = effectDep w then w
      else if ethereum w
      then w\<lparr>chainChanged :=
               remove1 (HandleChainChanged (effectDep w)) (chainChanged w)
                 @ [HandleChainChanged (walletAddress w)],
             effectDep := walletAddress w\<rparr>
      else w\<lparr>effectDep := walletAddress w\<rparr>)"

text \<open>The state before the first render, for a given \<^verbatim>\<open>window.ethereum\<close>.\<close>

definition init :: "bool \<Rightarrow> string option \<Rightarrow> world" where
  "init eth sel =
     \<lparr>walletAddress = None, error = None, anchorEl = None, copied = False, balance = None,
      network = None, loading = False, ethereum = eth, selectedAddress = sel,
      accountsChanged = [], chainChanged = [], clipboard = None, timers = [], now = 0,
      pending = [], effectDep = None\<rparr>"

text \<open>
  The first render's effects: lines 33-42 adopt an address the wallet already exposes,
  lines 44-63 register \<^verbatim>\<open>handleChainChanged\<close> with the \<^verbatim>\<open>walletAddress\<close> of the first
  render, \<^verbatim>\<open>null\<close>. The render that follows runs the second effect again when the address
  was adopted.
\<close>

definition mount :: "world \<Rightarrow> world" where
  "mount w =
     (let w1 = (if ethereum w \<and> truthy (selectedAddress w)
                then fetchWalletData (the (selectedAddress w)) Detached
                       (w\<lparr>walletAddress := selectedAddress w\<rparr>)
                else w);
          w2 = (if ethereum w1
                then w1\<lparr>chainChanged := chainChanged w1 @ [HandleChainChanged None]\<rparr>
                else w1)
      in commit (w2\<lparr>effectDep := None\<rparr>))"

text \<open>
  What can happen to a mounted component. A click on a menu item runs the item's handler
  and then, bubbling, the menu's \<^verbatim>\<open>onClick={handleClose}\<close> (line 264). Which of the
  clicks the rendered page offers depends on the state (lines 217-219); the model admits
  every event in every state, so it covers at least the states the page can reach.
\<close>

datatype event =
    ClickConnect
  | ClickSummary nat
  | CloseMenu
  | ClickCopy
  | ClickDisconnect
  | EmitAccountsChanged "string list"
  | EmitChainChanged string
  | Settle nat reply
  | Elapse nat

fun handle :: "event \<Rightarrow> world \<Rightarrow> world" where
  "handle ClickConnect w = connectWallet w"
| "handle (ClickSummary currentTarget) w = handleClick currentTarget w"
| "handle CloseMenu w = handleClose w"
| "handle ClickCopy w = handleClose (copyToClipboard w)"
| "handle ClickDisconnect w = handleClose (handleDisconnect w)"
| "handle (EmitAccountsChanged newAccounts) w = emit_accountsChanged newAccounts w"
| "handle (EmitChainChanged chainId) w = emit_chainChanged chainId w"
| "handle (Settle i r) w = settle_at i r w"
| "handle (Elapse d) w = elapse d w"

definition step :: "event \<Rightarrow> world \<Rightarrow> world" where
  "step e w = commit (handle e w)"

definition run :: "event list \<Rightarrow> world \<Rightarrow> world" where
  "run es w = fold step es w"

text \<open>
  The calls run to their end, one reply after the other and nothing else in between:
  the new task is the last of the suspended ones, so it has the index
  \<^term>\<open>length (pending w)\<close>, and a reply for a call that has already ended finds no task
  at that index and changes nothing.
\<close>

definition fetchWalletData_to_end :: "string \<Rightarrow> reply \<Rightarrow> reply \<Rightarrow> world \<Rightarrow> world" where
  "fetchWalletData_to_end address rb rn w =
     (let i = length (pending w)
      in settle_at i rn (settle_at i rb (fetchWalletData address Detached w)))"

definition connectWallet_to_end :: "reply \<Rightarrow> reply \<Rightarrow> reply \<Rightarrow> world \<Rightarrow> world" where
  "connectWallet_to_end ra rb rn w =
     (let i = length (pending w)
      in run [ClickConnect, Settle i ra, Settle i rb, Settle i rn] w)"

text \<open>
  Connect calls one after the other, each run to its end with its three replies. A call
  is successful when accounts come back and the list is not empty; whether the refresh
  it awaits succeeds does not matter for what follows line 100.
\<close>

fun connects :: "(reply \<times> reply \<times> reply) list \<Rightarrow> world \<Rightarrow> world" where
  "connects [] w = w"
| "connects ((ra, rb, rn) # cs) w = connects cs (connectWallet_to_end ra rb rn w)"

fun successful :: "reply \<times> reply \<times> reply \<Rightarrow> bool" where
  "successful (Accounts (a # as), Balance t, Network c n) = True"
| "successful (Accounts (a # as), Balance t, Rejected e) = True"
| "successful (Accounts (a # as), Rejected e, rn) = True"
| "successful c = False"

text \<open>Lines 350-354: the message is shown when it is a non-empty string.\<close>

definition rendered_error :: "world \<Rightarrow> string option" where
  "rendered_error w = (if truthy (error w) then error w else None)"

section \<open>Auxiliary notions for the properties\<close>

text \<open>
  The effect of lines 44-63 is up to date: it has run for the current \<^verbatim>\<open>walletAddress\<close>
  and its listener is registered. This is the state \<^term>\<open>commit\<close> leaves behind while a
  provider is present and nothing has removed the listener since.
\<close>

definition effect_registered :: "world \<Rightarrow> bool" where
  "effect_registered w =
     (ethereum w \<and> walletAddress w = effectDep w \<and>
      HandleChainChanged (effectDep w) \<in> set (chainChanged w))"

text \<open>
  The effect of lines 44-63 has caught up with the state: it has run for the current
  \<^verbatim>\<open>walletAddress\<close>, and while an address is set its listener is registered. Without a
  provider nothing is suspended and nothing is registered.
\<close>

definition effect_current :: "world \<Rightarrow> bool" where
  "effect_current w =
     (walletAddress w = effectDep w \<and>
      (walletAddress w \<noteq> None \<longrightarrow>
         ethereum w \<and> HandleChainChanged (walletAddress w) \<in> set (chainChanged w)) \<and>
      (\<not> ethereum w \<longrightarrow> pending w = [] \<and> accountsChanged w = [] \<and> chainChanged w = []))"

text \<open>The same between a handler and the render that follows it.\<close>

definition effect_due :: "world \<Rightarrow> bool" where
  "effect_due w =
     ((walletAddress w \<noteq> None \<longrightarrow> ethereum w) \<and>
      (walletAddress w \<noteq> None \<and> walletAddress w = effectDep w \<longrightarrow>
         HandleChainChanged (effectDep w) \<in> set (chainChanged w)) \<and>
      (\<not> ethereum w \<longrightarrow> pending w = [] \<and> accountsChanged w = [] \<and> chainChanged w = []))"

text \<open>The requests a \<^verbatim>\<open>chainChanged\<close> listener starts when it runs.\<close>

fun started :: "chain_listener \<Rightarrow> task list" where
  "started (HandleChainChanged captured) =
     (if truthy captured then [GetBalance (the captured) Detached] else [])"
| "started ConnectChainChanged = []"

text \<open>The loading flag is set only while some call is suspended.\<close>

definition loading_in_flight :: "world \<Rightarrow> bool" where
  "loading_in_flight w = (loading w \<longrightarrow> pending w \<noteq> [])"

text \<open>A mounted component with a provider, after one successful connect.\<close>

abbreviation example_session :: world where
  "example_session \<equiv>
     connects [(Accounts [''0xA''], Balance ''1.0'', Network 1 ''mainnet'')] (mount (init True None))"

section \<open>Properties of the navigation view\<close>

lemma render_navigation_length:
  "length (render_navigation navigations currentPath) = length navigations"
  by (simp add: render_navigation_def)

lemma render_navigation_nth:
  "i < length navigations \<Longrightarrow>
   render_navigation navigations currentPath ! i = render_link currentPath (navigations ! i)"
  by (simp add: render_navigation_def)

lemma marked_current_render_link:
  "marked_current (render_link currentPath n) \<longleftrightarrow> path n \<noteq> ''/'' \<and> path n = currentPath"
  by (auto simp: marked_current_def render_link_def link_color_def)

text \<open>
  C1, as stated, fails: an entry whose destination is the root path is rendered the same
  way whether or not the root path is the current one, so on the page \<^verbatim>\<open>/\<close> the entry
  for \<^verbatim>\<open>/\<close> is not marked current.
\<close>

theorem navigation_root_entry_not_marked:
  "\<not> marked_current (render_navigation [\<lparr>path = ''/'', label = ''Home''\<rparr>] ''/'' ! 0)
   \<and> render_navigation [\<lparr>path = ''/'', label = ''Home''\<rparr>] ''/''
     = render_navigation [\<lparr>path = ''/'', label = ''Home''\<rparr>] ''/about''"
  by (simp add: render_navigation_def render_link_def link_color_def marked_current_def)

text \<open>
  C1, amended: one link is rendered per entry, in order; an entry whose destination is
  not the root path is marked current exactly when its destination equals the current
  path, and is white otherwise; an entry whose destination is the root path always gets
  the colour \<^verbatim>\<open>primary.main\<close>, whatever the current path is.
\<close>

theorem navigation_marks_current_except_root:
  "length (render_navigation navigations currentPath) = length navigations \<and>
   (\<forall>i < length navigations.
      href (render_navigation navigations currentPath ! i) = path (navigations ! i) \<and>
      (path (navigations ! i) \<noteq> ''/'' \<longrightarrow>
         (marked_current (render_navigation navigations currentPath ! i)
            \<longleftrightarrow> path (navigations ! i) = currentPath)) \<and>
      (path (navigations ! i) \<noteq> ''/'' \<and> path (navigations ! i) \<noteq> currentPath \<longrightarrow>
         color (render_navigation navigations currentPath ! i) = ''white'') \<and>
      (path (navigations ! i) = ''/'' \<longrightarrow>
         color (render_navigation navigations currentPath ! i) = ''primary.main''))"
  by (auto simp: render_navigation_def marked_current_render_link)
     (simp_all add: render_link_def link_color_def)

theorem navigation_marks_current_except_root_witness:
  "marked_current
     (render_navigation [\<lparr>path = ''/'', label = ''Home''\<rparr>, \<lparr>path = ''/about'', label = ''About''\<rparr>]
        ''/about'' ! 1)
   \<and> color
     (render_navigation [\<lparr>path = ''/'', label = ''Home''\<rparr>, \<lparr>path = ''/about'', label = ''About''\<rparr>]
        ''/about'' ! 0) = ''primary.main''"
  using navigation_marks_current_except_root
    [of "[\<lparr>path = ''/'', label = ''Home''\<rparr>, \<lparr>path = ''/about'', label = ''About''\<rparr>]" "''/about''"]
  by (auto simp: nth_Cons')

section \<open>Properties of address shortening\<close>

text \<open>
  C8: for an address of at least 8 characters, \<^term>\<open>shortenAddress\<close> is the first four
  characters, three dots, and the last four characters: the address splits into a prefix
  of length 4, a middle part and a suffix of length 4, and the result is the prefix, the
  dots and the suffix. In particular \<^verbatim>\<open>0x1234567890abcdef\<close> becomes \<^verbatim>\<open>0x12...cdef\<close>.
\<close>

theorem shortenAddress_first4_last4:
  "8 \<le> length address \<Longrightarrow>
   (\<exists>p m q. address = p @ m @ q \<and> length p = 4 \<and> length q = 4 \<and>
      shortenAddress address = p @ ''...'' @ q)
   \<and> shortenAddress ''0x1234567890abcdef'' = ''0x12...cdef''"
proof
  assume len: "8 \<le> length address"
  let ?p = "take 4 address"
  let ?m = "drop 4 (take (length address - 4) address)"
  let ?q = "drop (length address - 4) address"
  have "take 4 (take (length address - 4) address) = ?p"
  proof -
    have "4 \<le> length address - 4" using len by arith
    then show ?thesis by (simp add: min_absorb1)
  qed
  then have "?p @ ?m = take (length address - 4) address"
    by (metis append_take_drop_id)
  then have "address = ?p @ ?m @ ?q"
    by (metis append_assoc append_take_drop_id)
  moreover have "length ?p = 4" "length ?q = 4"
    using len by simp_all
  moreover have "shortenAddress address = ?p @ ''...'' @ ?q"
    by (simp add: shortenAddress_def)
  ultimately show "\<exists>p m q. address = p @ m @ q \<and> length p = 4 \<and> length q = 4 \<and>
      shortenAddress address = p @ ''...'' @ q"
    by blast
next
  show "shortenAddress ''0x1234567890abcdef'' = ''0x12...cdef''"
    by (simp add: shortenAddress_def)
qed

theorem shortenAddress_first4_last4_witness:
  "8 \<le> length ''0xdeadbeef'' \<and>
   (\<exists>p m q. ''0xdeadbeef'' = p @ m @ q \<and> length p = 4 \<and> length q = 4 \<and>
      shortenAddress ''0xdeadbeef'' = p @ ''...'' @ q)"
  using shortenAddress_first4_last4 [of "''0xdeadbeef''"] by simp

section \<open>Properties of the wallet session\<close>

text \<open>The state after mounting with a provider and one successful connect.\<close>

lemma example_session_state:
  "example_session =
     \<lparr>walletAddress = Some ''0xA'', error = None, anchorEl = None, copied = False,
      balance = Some ''1.0'', network = Some \<lparr>id' = Num 1, name = ''mainnet''\<rparr>,
      loading = False, ethereum = True, selectedAddress = None,
      accountsChanged = [ConnectAccountsChanged],
      chainChanged = [HandleChainChanged (Some ''0xA''), ConnectChainChanged],
      clipboard = None, timers = [], now = 0, pending = [], effectDep = Some ''0xA''\<rparr>"
  by (simp add: connectWallet_to_end_def run_def step_def commit_def mount_def init_def
      connectWallet_def settle_at_def fetchWalletData_def after_fetch_def truthy_def
      to_number_def round_double_def Let_def)

subsection \<open>Connecting without a provider\<close>

text \<open>
  C5: when no wallet provider is injected, every call of \<^term>\<open>connectWallet\<close> ends at once
  with the message \<^verbatim>\<open>Please install MetaMask to continue\<close> in the error cell, which the
  page shows, and leaves the address, the balance and the network as they were (so an
  empty session stays empty); no request is left pending.
\<close>

theorem connectWallet_provider_missing:
  "\<not> ethereum w \<Longrightarrow>
   connectWallet w = w\<lparr>error := Some ''Please install MetaMask to continue'', loading := False\<rparr> \<and>
   rendered_error (connectWallet w) = Some ''Please install MetaMask to continue'' \<and>
   walletAddress (connectWallet w) = walletAddress w \<and>
   balance (connectWallet w) = balance w \<and>
   network (connectWallet w) = network w \<and>
   pending (connectWallet w) = pending w"
  by (simp add: connectWallet_def rendered_error_def truthy_def)

theorem connectWallet_provider_missing_witness:
  "\<not> ethereum (init False None) \<and>
   rendered_error (connectWallet (init False None)) = Some ''Please install MetaMask to continue'' \<and>
   walletAddress (connectWallet (init False None)) = None \<and>
   balance (connectWallet (init False None)) = None \<and>
   network (connectWallet (init False None)) = None"
proof -
  have h: "\<not> ethereum (init False None)"
    by (simp add: init_def)
  have f: "walletAddress (init False None) = None" "balance (init False None) = None"
    "network (init False None) = None"
    by (simp_all add: init_def)
  show ?thesis
    using connectWallet_provider_missing [OF h] h f
    by (simp add: rendered_error_def truthy_def)
qed

subsection \<open>Disconnecting\<close>

lemma handleDisconnect_idem: "handleDisconnect (handleDisconnect w) = handleDisconnect w"
  by (simp add: handleDisconnect_def handleClose_def Let_def)

lemma fold_accounts_listeners_disconnected:
  "fold (\<lambda>l. run_accounts_listener l []) ls (handleDisconnect w) = handleDisconnect w"
proof (induction ls)
  case Nil
  show ?case by simp
next
  case (Cons l ls)
  then show ?case by (cases l) (simp add: handleDisconnect_idem)
qed

lemma emit_accountsChanged_empty:
  assumes "accountsChanged w \<noteq> []"
  shows "emit_accountsChanged [] w = handleDisconnect w"
proof -
  obtain l ls where ls: "accountsChanged w = l # ls"
    using assms by (cases "accountsChanged w") auto
  have "run_accounts_listener l [] w = handleDisconnect w"
    by (cases l) simp
  then show ?thesis
    by (simp add: emit_accountsChanged_def ls fold_accounts_listeners_disconnected)
qed

text \<open>
  C6: the listener for \<^verbatim>\<open>accountsChanged\<close>, called with the empty list, does exactly what
  \<^term>\<open>handleDisconnect\<close> does, whatever the state was, and so does the event as a whole
  when at least one such listener is registered; \<^term>\<open>handleDisconnect\<close> leaves the
  address, the balance and the network all \<^verbatim>\<open>null\<close>.
\<close>

theorem accountsChanged_empty_disconnects:
  "run_accounts_listener ConnectAccountsChanged [] w = handleDisconnect w \<and>
   (accountsChanged w \<noteq> [] \<longrightarrow> emit_accountsChanged [] w = handleDisconnect w) \<and>
   walletAddress (handleDisconnect w) = None \<and>
   balance (handleDisconnect w) = None \<and>
   network (handleDisconnect w) = None"
  by (simp add: emit_accountsChanged_empty) (simp add: handleDisconnect_def handleClose_def Let_def)

theorem accountsChanged_empty_disconnects_witness:
  "accountsChanged
     ((init True None)\<lparr>walletAddress := Some ''0xA'', balance := Some ''1.0'',
        accountsChanged := [ConnectAccountsChanged]\<rparr>) \<noteq> [] \<and>
   walletAddress
     (emit_accountsChanged []
        ((init True None)\<lparr>walletAddress := Some ''0xA'', balance := Some ''1.0'',
           accountsChanged := [ConnectAccountsChanged]\<rparr>)) = None \<and>
   balance
     (emit_accountsChanged []
        ((init True None)\<lparr>walletAddress := Some ''0xA'', balance := Some ''1.0'',
           accountsChanged := [ConnectAccountsChanged]\<rparr>)) = None"
  using accountsChanged_empty_disconnects
    [of "(init True None)\<lparr>walletAddress := Some ''0xA'', balance := Some ''1.0'',
           accountsChanged := [ConnectAccountsChanged]\<rparr>"]
  by simp

subsection \<open>A connect request answered with no account\<close>

text \<open>
  C10: with a provider present, a call of \<^term>\<open>connectWallet\<close> whose account request
  resolves with the empty list ends with the state it started from, except that the
  loading flag is cleared: address, balance, network, error message and listeners are
  untouched and no request stays pending.
\<close>

theorem connectWallet_empty_accounts:
  "ethereum w \<Longrightarrow>
   settle_at (length (pending w)) (Accounts []) (connectWallet w) = w\<lparr>loading := False\<rparr>"
  by (simp add: connectWallet_def settle_at_def)

theorem connectWallet_empty_accounts_witness:
  "ethereum (init True None) \<and>
   settle_at (length (pending (init True None))) (Accounts []) (connectWallet (init True None))
     = init True None"
proof -
  have h: "ethereum (init True None)"
    by (simp add: init_def)
  have f: "(init True None)\<lparr>loading := False\<rparr> = init True None"
    by (simp add: init_def)
  show ?thesis
    using connectWallet_empty_accounts [OF h] h f by simp
qed

subsection \<open>A refresh that fails\<close>

text \<open>
  C3, as stated, fails: in a connected session with balance \<^verbatim>\<open>1.0\<close>, a refresh whose
  balance request succeeds and whose network request is rejected ends with the error
  message set and with the new balance in place.
\<close>

theorem refresh_failure_changes_balance:
  "walletAddress example_session = Some ''0xA'' \<and>
   balance example_session = Some ''1.0'' \<and>
   error (fetchWalletData_to_end ''0xA'' (Balance ''2.5'') (Rejected (Error ''timeout''))
            example_session) = Some ''Failed to load wallet data'' \<and>
   balance (fetchWalletData_to_end ''0xA'' (Balance ''2.5'') (Rejected (Error ''timeout''))
              example_session) = Some ''2.5''"
  unfolding example_session_state
  by (simp add: fetchWalletData_to_end_def fetchWalletData_def settle_at_def fetch_failed_def
      after_fetch_def Let_def)

text \<open>
  C3, amended: a refresh whose balance request is rejected sets the error message,
  clears the loading flag and changes nothing else, so address, balance and network keep
  their values. A refresh whose balance request succeeds and whose network request is
  rejected sets the error message, clears the loading flag and keeps address and
  network, but the balance is the newly fetched one (the first six characters of its
  text): balance and network are not updated together.
\<close>

theorem refresh_failure_effects:
  "fetchWalletData_to_end address (Rejected e) rn w
     = w\<lparr>error := Some ''Failed to load wallet data'', loading := False\<rparr> \<and>
   fetchWalletData_to_end address (Balance t) (Rejected e) w
     = w\<lparr>balance := Some (take 6 t), error := Some ''Failed to load wallet data'',
         loading := False\<rparr>"
  by (simp add: fetchWalletData_to_end_def fetchWalletData_def settle_at_def fetch_failed_def
      after_fetch_def Let_def)

subsection \<open>The copied indicator\<close>

text \<open>
  C2, as stated, fails: a copy at time 0 and a second copy at time 1500 leave the
  indicator false at time 2000, 500 milliseconds after the second copy, because the
  first timer still fires; the second timer is still pending then.
\<close>

theorem second_copy_cleared_early:
  "copied (run [ClickSummary 0, ClickCopy, Elapse 1500, ClickSummary 0, ClickCopy] example_session) \<and>
   \<not> copied (run [ClickSummary 0, ClickCopy, Elapse 1500, ClickSummary 0, ClickCopy, Elapse 500]
               example_session) \<and>
   timers (run [ClickSummary 0, ClickCopy, Elapse 1500, ClickSummary 0, ClickCopy, Elapse 500]
             example_session) = [3500]"
  unfolding example_session_state by code_simp

text \<open>
  C2, amended: with an address active, \<^term>\<open>copyToClipboard\<close> writes the address to the
  clipboard, sets the indicator and adds a timer due 2000 milliseconds later, keeping
  every timer that was pending. With no further copy, the indicator is still set \<open>d\<close>
  milliseconds after the call exactly when \<open>d < 2000\<close> and no earlier timer has fallen
  due by then: it is cleared 2000 milliseconds after the most recent copy at the latest,
  and earlier when the timer of a previous copy fires.
\<close>

theorem copyToClipboard_timers_stack:
  "truthy (walletAddress w) \<Longrightarrow>
   copied (copyToClipboard w) \<and>
   clipboard (copyToClipboard w) = walletAddress w \<and>
   timers (copyToClipboard w) = timers w @ [now w + 2000] \<and>
   (\<forall>d. copied (elapse d (copyToClipboard w))
          \<longleftrightarrow> d < 2000 \<and> \<not> list_ex (\<lambda>x. x \<le> now w + d) (timers w))"
  by (auto simp: copyToClipboard_def elapse_def Let_def list_ex_iff)

theorem copyToClipboard_timers_stack_witness:
  "truthy (walletAddress ((init True None)\<lparr>walletAddress := Some ''0xA''\<rparr>)) \<and>
   copied (elapse 1999 (copyToClipboard ((init True None)\<lparr>walletAddress := Some ''0xA''\<rparr>))) \<and>
   \<not> copied (elapse 2000 (copyToClipboard ((init True None)\<lparr>walletAddress := Some ''0xA''\<rparr>)))"
  using copyToClipboard_timers_stack [of "(init True None)\<lparr>walletAddress := Some ''0xA''\<rparr>"]
  by (simp add: truthy_def init_def)


subsection \<open>A change of chain\<close>

text \<open>Digits and their values.\<close>

lemma hex_digit_table:
  assumes "d < 16"
  shows "hex_digit (''0123456789abcdef'' ! d) = Some d"
    and "hex_digit (''0123456789ABCDEF'' ! d) = Some d"
proof -
  have "d \<in> {0, 1, 2, 3, 4, 5, 6, 7, 8, 9, 10, 11, 12, 13, 14, 15}"
    using assms by simp arith
  then show "hex_digit (''0123456789abcdef'' ! d) = Some d"
    and "hex_digit (''0123456789ABCDEF'' ! d) = Some d"
    by (auto simp: hex_digit_def)
qed

lemma is_hex_plain:
  assumes "is_hex c"
  shows "\<not> is_ws c" and "c \<noteq> CHR ''+''" and "c \<noteq> CHR ''-''" and "c \<noteq> CHR ''x''"
    and "c \<noteq> CHR ''X''"
  using assms by (auto simp: is_hex_def hex_digit_def is_ws_def Let_def split: if_splits)

lemma foldl_positional:
  "foldl (\<lambda>a d. b * a + d) 0 vs = (\<Sum>i<length vs. vs ! i * (b::nat) ^ (length vs - Suc i))"
proof (induction vs rule: rev_induct)
  case Nil
  show ?case by simp
next
  case (snoc d vs)
  have "(\<Sum>i<length vs. (vs @ [d]) ! i * b ^ (length (vs @ [d]) - Suc i))
      = (\<Sum>i<length vs. b * (vs ! i * b ^ (length vs - Suc i)))"
  proof (rule sum.cong)
    fix i
    assume "i \<in> {..<length vs}"
    then have i: "i < length vs" by simp
    then have "length vs - i = Suc (length vs - Suc i)" by arith
    then show "(vs @ [d]) ! i * b ^ (length (vs @ [d]) - Suc i)
        = b * (vs ! i * b ^ (length vs - Suc i))"
      using i by (simp add: nth_append algebra_simps)
  qed simp
  then show ?case
    using snoc.IH by (simp add: sum_distrib_left)
qed

lemma hex_value_positional:
  assumes "list_all2 (\<lambda>c d. d < 16 \<and>
             (c = ''0123456789abcdef'' ! d \<or> c = ''0123456789ABCDEF'' ! d)) ds vs"
  shows "hex_value ds = (\<Sum>i<length vs. vs ! i * 16 ^ (length vs - Suc i))"
    and "list_all is_hex ds"
proof -
  have d: "map (\<lambda>c. the (hex_digit c)) ds = vs \<and> list_all is_hex ds"
    using assms
  proof (induction rule: list_all2_induct)
    case Nil
    show ?case by simp
  next
    case (Cons c ds d vs)
    then show ?case by (auto simp: is_hex_def hex_digit_table)
  qed
  have "hex_value ds = foldl (\<lambda>a d. 16 * a + d) 0 (map (\<lambda>c. the (hex_digit c)) ds)"
    by (simp add: hex_value_def foldl_map)
  then show "hex_value ds = (\<Sum>i<length vs. vs ! i * 16 ^ (length vs - Suc i))"
    using d by (simp add: foldl_positional)
  show "list_all is_hex ds"
    using d by simp
qed

lemma decimal_positional:
  "\<exists>ts. ts \<noteq> [] \<and> list_all (\<lambda>d. d < 10) ts \<and> (hd ts = 0 \<longrightarrow> ts = [0]) \<and>
        (\<Sum>i<length ts. ts ! i * 10 ^ (length ts - Suc i)) = n \<and>
        decimal n = map ((!) ''0123456789'') ts"
proof (induction n rule: decimal.induct)
  case (1 n)
  show ?case
  proof (cases "n < 10")
    case True
    then have "[n] \<noteq> [] \<and> list_all (\<lambda>d. d < 10) [n] \<and> (hd [n] = 0 \<longrightarrow> [n] = [0]) \<and>
        (\<Sum>i<length [n]. [n] ! i * 10 ^ (length [n] - Suc i)) = n \<and>
        decimal n = map ((!) ''0123456789'') [n]"
      by (simp add: decimal.simps)
    then show ?thesis by (rule exI [where x = "[n]"])
  next
    case False
    obtain ts where ts: "ts \<noteq> []" "list_all (\<lambda>d. d < 10) ts" "hd ts = 0 \<longrightarrow> ts = [0]"
      "(\<Sum>i<length ts. ts ! i * 10 ^ (length ts - Suc i)) = n div 10"
      "decimal (n div 10) = map ((!) ''0123456789'') ts"
      using "1.IH" [OF False] by (elim exE conjE)
    let ?us = "ts @ [n mod 10]"
    have pos: "foldl (\<lambda>a d. 10 * a + d) 0 ts = n div 10"
      using ts(4) by (simp add: foldl_positional)
    have "foldl (\<lambda>a d. 10 * a + d) 0 ?us = n"
      using pos by simp
    then have v: "(\<Sum>i<length ?us. ?us ! i * 10 ^ (length ?us - Suc i)) = n"
      by (simp only: foldl_positional)
    have "n div 10 \<noteq> 0"
      using False by simp
    then have "ts \<noteq> [0]"
      using ts(4) by auto
    then have h: "hd ?us \<noteq> 0"
      using ts(1) ts(3) by simp
    have dec: "decimal n = map ((!) ''0123456789'') ?us"
      using False ts(5) by (subst decimal.simps) simp
    have "?us \<noteq> [] \<and> list_all (\<lambda>d. d < 10) ?us \<and> (hd ?us = 0 \<longrightarrow> ?us = [0]) \<and>
        (\<Sum>i<length ?us. ?us ! i * 10 ^ (length ?us - Suc i)) = n \<and>
        decimal n = map ((!) ''0123456789'') ?us"
      using ts(2) v h dec by simp
    then show ?thesis by (rule exI [where x = "?us"])
  qed
qed

text \<open>Parsing and printing within the exact range.\<close>

lemma parseInt16_hex_digits:
  assumes "ds \<noteq> []" and "list_all is_hex ds" and "p = [] \<or> p = ''0x'' \<or> p = ''0X''"
  shows "parseInt16 (p @ ds) = to_number (int (hex_value ds))"
proof -
  obtain c cs where ds: "ds = c # cs"
    using assms(1) by (cases ds) auto
  have c: "is_hex c" and cs: "takeWhile is_hex cs = cs"
    using assms(2) by (simp_all add: ds list_all_iff)
  have tw: "takeWhile is_hex ds = ds"
    using assms(2) by (simp add: list_all_iff)
  have bare: "parseInt16 ds = to_number (int (hex_value ds))"
  proof (cases cs)
    case Nil
    then show ?thesis
      using is_hex_plain [OF c] c by (simp add: parseInt16_def ds Let_def)
  next
    case (Cons b bs)
    then have b: "is_hex b" and bs: "takeWhile is_hex bs = bs"
      using assms(2) by (simp_all add: ds list_all_iff)
    show ?thesis
      using is_hex_plain [OF c] is_hex_plain(4,5) [OF b] c b
      by (simp add: parseInt16_def ds Cons Let_def bs)
  qed
  have lower: "parseInt16 (CHR ''0'' # CHR ''x'' # ds) = to_number (int (hex_value ds))"
    using assms(1) by (simp add: parseInt16_def is_ws_def Let_def tw)
  have upper: "parseInt16 (CHR ''0'' # CHR ''X'' # ds) = to_number (int (hex_value ds))"
    using assms(1) by (simp add: parseInt16_def is_ws_def Let_def tw)
  show ?thesis
    using assms(3) bare lower upper by auto
qed

lemma round_double_exact: "v \<le> 2 ^ 53 \<Longrightarrow> round_double v = Some v"
proof (cases "v < 2 ^ 53")
  case True
  then show ?thesis by (simp add: round_double_def)
next
  case False
  assume "v \<le> 2 ^ 53"
  then have v: "v = 2 ^ 53" using False by simp
  have b: "bitlen (2 ^ n) = Suc n" for n
    by (induction n) (simp_all add: bitlen.simps)
  show ?thesis
    unfolding v round_double_def b by (simp add: Let_def)
qed

lemma to_number_exact: "v \<le> 2 ^ 53 \<Longrightarrow> to_number (int v) = Num (int v)"
  by (simp add: to_number_def round_double_exact)

lemma unknown_network_exact:
  "v \<le> 2 ^ 53 \<Longrightarrow>
   unknown_network (Num (int v))
     = \<lparr>id' = Num (int v), name = ''Unknown Network ('' @ decimal v @ '')''\<rparr>"
  by (simp add: unknown_network_def number_to_string_def double_digits_def)

text \<open>What the listeners do to the network and to the suspended calls.\<close>

lemma network_run_chain_listener:
  "network (run_chain_listener l c w) = Some (unknown_network (parseInt16 c))"
  by (cases l) (simp_all add: fetchWalletData_def Let_def)

lemma network_fold_chain_listeners:
  "ls \<noteq> [] \<Longrightarrow>
   network (fold (\<lambda>l. run_chain_listener l c) ls w) = Some (unknown_network (parseInt16 c))"
proof (induction ls arbitrary: w)
  case Nil
  then show ?case by simp
next
  case (Cons l ls)
  then show ?case by (cases "ls = []") (simp_all add: network_run_chain_listener)
qed

lemma pending_run_chain_listener:
  "pending (run_chain_listener l c w) = pending w @ started l"
  by (cases l) (simp_all add: fetchWalletData_def Let_def)

lemma loading_run_chain_listener:
  "loading (run_chain_listener l c w) = (loading w \<or> started l \<noteq> [])"
  by (cases l) (simp_all add: fetchWalletData_def Let_def)

lemma pending_fold_chain_listeners:
  "pending (fold (\<lambda>l. run_chain_listener l c) ls w) = pending w @ concat (map started ls)"
  by (induction ls arbitrary: w) (simp_all add: pending_run_chain_listener)

lemma loading_fold_chain_listeners:
  "loading (fold (\<lambda>l. run_chain_listener l c) ls w)
     = (loading w \<or> concat (map started ls) \<noteq> [])"
  by (induction ls arbitrary: w) (auto simp: loading_run_chain_listener)

lemma emit_chainChanged_refreshes:
  assumes "HandleChainChanged (Some a) \<in> set (chainChanged w)" and "a \<noteq> []"
  shows "loading (emit_chainChanged c w) \<and>
    (\<exists>ts. pending (emit_chainChanged c w) = pending w @ ts \<and> GetBalance a Detached \<in> set ts)"
proof -
  have "GetBalance a Detached \<in> set (concat (map started (chainChanged w)))"
    using assms by (force simp: truthy_def)
  then show ?thesis
    by (auto simp: emit_chainChanged_def pending_fold_chain_listeners loading_fold_chain_listeners)
qed

text \<open>
  The effect's listener for the address in use is registered in every state a mounted
  component reaches.
\<close>

lemma effect_current_due: "effect_current w \<Longrightarrow> effect_due w"
  by (auto simp: effect_due_def effect_current_def simp del: not_None_eq)

lemma effect_due_fields:
  assumes "effect_current w"
    and "ethereum v = ethereum w" and "effectDep v = effectDep w"
    and "walletAddress v = walletAddress w \<or> ethereum w"
    and "set (chainChanged w) \<subseteq> set (chainChanged v)"
    and "\<not> ethereum w \<longrightarrow>
           pending v = pending w \<and> accountsChanged v = accountsChanged w \<and>
           chainChanged v = chainChanged w"
  shows "effect_due v"
  using assms by (auto simp: effect_due_def effect_current_def simp del: not_None_eq)

lemma commit_effect_current: "effect_due w \<Longrightarrow> effect_current (commit w)"
  by (auto simp: effect_due_def effect_current_def commit_def simp del: not_None_eq)

lemma fold_accounts_listeners_fields:
  "ethereum (fold (\<lambda>l. run_accounts_listener l (a # as)) ls w) = ethereum w"
  "effectDep (fold (\<lambda>l. run_accounts_listener l (a # as)) ls w) = effectDep w"
  "chainChanged (fold (\<lambda>l. run_accounts_listener l (a # as)) ls w) = chainChanged w"
  "accountsChanged (fold (\<lambda>l. run_accounts_listener l (a # as)) ls w) = accountsChanged w"
  "walletAddress (fold (\<lambda>l. run_accounts_listener l (a # as)) ls w)
     = (if ls = [] then walletAddress w else Some a)"
proof (induction ls arbitrary: w)
  case Nil
  {
    case 1 show ?case by simp
  next
    case 2 show ?case by simp
  next
    case 3 show ?case by simp
  next
    case 4 show ?case by simp
  next
    case 5 show ?case by simp
  }
next
  case (Cons l ls)
  {
    case 1 show ?case by (cases l) (simp add: Cons.IH fetchWalletData_def)
  next
    case 2 show ?case by (cases l) (simp add: Cons.IH fetchWalletData_def)
  next
    case 3 show ?case by (cases l) (simp add: Cons.IH fetchWalletData_def)
  next
    case 4 show ?case by (cases l) (simp add: Cons.IH fetchWalletData_def)
  next
    case 5 show ?case by (cases l) (simp add: Cons.IH fetchWalletData_def)
  }
qed

lemma fold_chain_listeners_fields:
  "ethereum (fold (\<lambda>l. run_chain_listener l c) ls w) = ethereum w"
  "effectDep (fold (\<lambda>l. run_chain_listener l c) ls w) = effectDep w"
  "chainChanged (fold (\<lambda>l. run_chain_listener l c) ls w) = chainChanged w"
  "accountsChanged (fold (\<lambda>l. run_chain_listener l c) ls w) = accountsChanged w"
  "walletAddress (fold (\<lambda>l. run_chain_listener l c) ls w) = walletAddress w"
proof -
  have one: "ethereum (run_chain_listener l c v) = ethereum v \<and>
      effectDep (run_chain_listener l c v) = effectDep v \<and>
      chainChanged (run_chain_listener l c v) = chainChanged v \<and>
      accountsChanged (run_chain_listener l c v) = accountsChanged v \<and>
      walletAddress (run_chain_listener l c v) = walletAddress v" for l v
    by (cases l) (simp_all add: fetchWalletData_def Let_def)
  have all: "ethereum (fold (\<lambda>l. run_chain_listener l c) ls w) = ethereum w \<and>
      effectDep (fold (\<lambda>l. run_chain_listener l c) ls w) = effectDep w \<and>
      chainChanged (fold (\<lambda>l. run_chain_listener l c) ls w) = chainChanged w \<and>
      accountsChanged (fold (\<lambda>l. run_chain_listener l c) ls w) = accountsChanged w \<and>
      walletAddress (fold (\<lambda>l. run_chain_listener l c) ls w) = walletAddress w"
    by (induction ls arbitrary: w) (simp_all add: one)
  show "ethereum (fold (\<lambda>l. run_chain_listener l c) ls w) = ethereum w"
    "effectDep (fold (\<lambda>l. run_chain_listener l c) ls w) = effectDep w"
    "chainChanged (fold (\<lambda>l. run_chain_listener l c) ls w) = chainChanged w"
    "accountsChanged (fold (\<lambda>l. run_chain_listener l c) ls w) = accountsChanged w"
    "walletAddress (fold (\<lambda>l. run_chain_listener l c) ls w) = walletAddress w"
    using all by simp_all
qed

lemma settle_fields:
  "ethereum (settle t r w) = ethereum w \<and> effectDep (settle t r w) = effectDep w \<and>
   set (chainChanged w) \<subseteq> set (chainChanged (settle t r w))"
  by (cases "(t, r, w)" rule: settle.cases)
     (auto simp: fetchWalletData_def fetch_failed_def after_fetch_def
           split: list.splits cont.splits)

lemma settle_at_effect_due:
  assumes "effect_current w"
  shows "effect_due (settle_at i r w)"
proof (cases "i < length (pending w) \<and> fits (pending w ! i) r")
  case False
  then have "settle_at i r w = w"
    by (auto simp: settle_at_def)
  then show ?thesis
    using assms by (simp add: effect_current_due)
next
  case True
  let ?w = "w\<lparr>pending := take i (pending w) @ drop (Suc i) (pending w)\<rparr>"
  have eq: "settle_at i r w = settle (pending w ! i) r ?w"
    using True by (simp add: settle_at_def)
  have "pending w \<noteq> []"
    using True by auto
  then have eth: "ethereum w"
    using assms by (auto simp: effect_current_def)
  have f: "ethereum (settle_at i r w)" "effectDep (settle_at i r w) = effectDep w"
    "set (chainChanged w) \<subseteq> set (chainChanged (settle_at i r w))"
    using settle_fields [of "pending w ! i" r ?w] eth by (simp_all add: eq)
  have a: "walletAddress (settle_at i r w) = walletAddress w \<or> ethereum w"
    using eth by simp
  show ?thesis
    using effect_due_fields [OF assms _ f(2) a f(3)] f(1) eth by simp
qed

lemma emit_accountsChanged_effect_due:
  assumes "effect_current w"
  shows "effect_due (emit_accountsChanged newAccounts w)"
proof (cases "accountsChanged w = []")
  case True
  then show ?thesis
    using assms by (simp add: emit_accountsChanged_def effect_current_due)
next
  case False
  then have eth: "ethereum w"
    using assms by (auto simp: effect_current_def)
  show ?thesis
  proof (cases newAccounts)
    case Nil
    then have "emit_accountsChanged newAccounts w = handleDisconnect w"
      using False by (simp add: emit_accountsChanged_empty)
    then show ?thesis
      using eth by (simp add: effect_due_def handleDisconnect_def handleClose_def Let_def)
  next
    case (Cons a as)
    show ?thesis
      using eth
      by (intro effect_due_fields [OF assms])
         (simp_all add: emit_accountsChanged_def Cons fold_accounts_listeners_fields)
  qed
qed

lemma emit_chainChanged_effect_due:
  assumes "effect_current w"
  shows "effect_due (emit_chainChanged c w)"
proof (cases "ethereum w")
  case True
  then show ?thesis
    by (intro effect_due_fields [OF assms])
       (simp_all add: emit_chainChanged_def fold_chain_listeners_fields)
next
  case False
  then have "chainChanged w = []"
    using assms by (simp add: effect_current_def)
  then show ?thesis
    using assms by (simp add: emit_chainChanged_def effect_current_due)
qed

lemma handle_effect_due:
  assumes "effect_current w"
  shows "effect_due (handle e w)"
proof (cases e)
  case (Settle i r)
  then show ?thesis using assms by (simp add: settle_at_effect_due)
next
  case (EmitAccountsChanged newAccounts)
  then show ?thesis using assms by (simp add: emit_accountsChanged_effect_due)
next
  case (EmitChainChanged c)
  then show ?thesis using assms by (simp add: emit_chainChanged_effect_due)
qed (use assms in \<open>auto simp: effect_due_def effect_current_def connectWallet_def
      handleClick_def handleClose_def copyToClipboard_def handleDisconnect_def elapse_def
      Let_def simp del: not_None_eq\<close>)

lemma step_effect_current: "effect_current w \<Longrightarrow> effect_current (step e w)"
  by (simp add: step_def commit_effect_current handle_effect_due)

lemma run_effect_current: "effect_current w \<Longrightarrow> effect_current (run es w)"
  unfolding run_def by (induction es arbitrary: w) (simp_all add: step_effect_current)

lemma mount_effect_current: "effect_current (mount (init eth sel))"
  by (simp add: effect_current_def mount_def init_def commit_def fetchWalletData_def Let_def
      truthy_def)

lemma reachable_listener_registered:
  assumes "walletAddress (run es (mount (init eth sel))) = Some a"
  shows "HandleChainChanged (Some a) \<in> set (chainChanged (run es (mount (init eth sel))))"
  using run_effect_current [OF mount_effect_current, of es eth sel] assms
  by (auto simp: effect_current_def simp del: not_None_eq)

text \<open>
  C4, as stated, fails, in two ways. The listener that \<^verbatim>\<open>connectWallet\<close> registers (lines
  111-117), run on \<^verbatim>\<open>0x1\<close> in a connected session, sets the network and starts no
  refresh: no call is suspended afterwards and the loading flag is not set. And for the
  chain id \<^verbatim>\<open>0x20000000000001\<close>, whose base-16 value is 9007199254740993, the id is the
  double 9007199254740992.
\<close>

theorem connect_listener_starts_no_refresh:
  "walletAddress example_session = Some ''0xA'' \<and>
   network (run_chain_listener ConnectChainChanged ''0x1'' example_session)
     = Some \<lparr>id' = Num 1, name = ''Unknown Network (1)''\<rparr> \<and>
   pending (run_chain_listener ConnectChainChanged ''0x1'' example_session) = [] \<and>
   \<not> loading (run_chain_listener ConnectChainChanged ''0x1'' example_session) \<and>
   id' (unknown_network (parseInt16 ''0x20000000000001'')) = Num 9007199254740992 \<and>
   2 * 16 ^ 13 + 1 = (9007199254740993 :: int)"
proof -
  have one: "parseInt16 ''0x1'' = Num 1"
    by (simp add: parseInt16_def is_ws_def is_hex_def hex_digit_def hex_value_def to_number_def
        round_double_def)
  have name: "number_to_string (Num 1) = ''1''"
    by (simp add: number_to_string_def double_digits_def decimal.simps)
  have v: "hex_value ''20000000000001'' = 9007199254740993"
    by (simp add: hex_value_def hex_digit_def)
  have b: "bitlen 9007199254740993 = 54"
    by (simp add: bitlen.simps)
  have r: "round_double 9007199254740993 = Some 9007199254740992"
    by (simp add: round_double_def b Let_def)
  have big: "parseInt16 ''0x20000000000001'' = Num 9007199254740992"
    by (simp add: parseInt16_def is_ws_def is_hex_def hex_digit_def v to_number_def r)
  show ?thesis
    unfolding example_session_state
    by (simp add: one name big unknown_network_def)
qed

text \<open>
  C4, amended. Take a chain id that is an optional \<^verbatim>\<open>0x\<close> or \<^verbatim>\<open>0X\<close> followed by
  hexadecimal digits, upper or lower case, with the digit values \<open>vs\<close>, whose base-16
  value \<open>v\<close> is at most \<open>2\<^sup>5\<^sup>3\<close>. Then each of the component's \<^verbatim>\<open>chainChanged\<close>
  listeners, and the event as a whole when a listener is registered, sets the network to
  the id \<open>v\<close> and the name \<^verbatim>\<open>Unknown Network (\<close>\<open>t\<close>\<^verbatim>\<open>)\<close>, where \<open>t\<close> is the decimal numeral of
  \<open>v\<close>: digits \<open>ts\<close> without a leading zero whose base-10 value is \<open>v\<close>. For every chain
  id, \<^verbatim>\<open>handleChainChanged\<close> with a non-empty address goes on as a refresh for that
  address, while the listener registered by \<^verbatim>\<open>connectWallet\<close> leaves the suspended calls
  and the loading flag as they are. In every state a mounted component reaches, an event
  delivered while a non-empty address is in use sets the loading flag and leaves a
  balance request for that address suspended.
\<close>

theorem chainChanged_listeners:
  assumes "p = [] \<or> p = ''0x'' \<or> p = ''0X''"
    and "ds \<noteq> []"
    and "list_all2 (\<lambda>c d. d < 16 \<and>
           (c = ''0123456789abcdef'' ! d \<or> c = ''0123456789ABCDEF'' ! d)) ds vs"
    and "v = (\<Sum>i<length vs. vs ! i * 16 ^ (length vs - Suc i))"
    and "v \<le> 2 ^ 53"
  shows
    "(\<exists>ts. ts \<noteq> [] \<and> list_all (\<lambda>d. d < 10) ts \<and> (hd ts = 0 \<longrightarrow> ts = [0]) \<and>
        (\<Sum>i<length ts. ts ! i * 10 ^ (length ts - Suc i)) = v \<and>
        (\<forall>l. network (run_chain_listener l (p @ ds) w)
                = Some \<lparr>id' = Num (int v),
                        name = ''Unknown Network ('' @ map ((!) ''0123456789'') ts @ '')''\<rparr>) \<and>
        (chainChanged w \<noteq> [] \<longrightarrow>
           network (emit_chainChanged (p @ ds) w)
             = Some \<lparr>id' = Num (int v),
                     name = ''Unknown Network ('' @ map ((!) ''0123456789'') ts @ '')''\<rparr>)) \<and>
     (\<forall>a. a \<noteq> [] \<longrightarrow>
        run_chain_listener (HandleChainChanged (Some a)) chainId w
          = fetchWalletData a Detached
              (w\<lparr>network := Some (unknown_network (parseInt16 chainId))\<rparr>)) \<and>
     pending (run_chain_listener ConnectChainChanged chainId w) = pending w \<and>
     loading (run_chain_listener ConnectChainChanged chainId w) = loading w \<and>
     (\<forall>a. walletAddress (run es (mount (init eth sel))) = Some a \<and> a \<noteq> [] \<longrightarrow>
        loading (emit_chainChanged chainId (run es (mount (init eth sel)))) \<and>
        (\<exists>ts. pending (emit_chainChanged chainId (run es (mount (init eth sel))))
                = pending (run es (mount (init eth sel))) @ ts \<and>
              GetBalance a Detached \<in> set ts))"
proof -
  have hv: "hex_value ds = v" and hx: "list_all is_hex ds"
    using hex_value_positional [OF assms(3)] assms(4) by simp_all
  have p: "parseInt16 (p @ ds) = Num (int v)"
    using parseInt16_hex_digits [OF assms(2) hx assms(1)] to_number_exact [OF assms(5)]
    by (simp add: hv)
  obtain ts where ts: "ts \<noteq> []" "list_all (\<lambda>d. d < 10) ts" "hd ts = 0 \<longrightarrow> ts = [0]"
    "(\<Sum>i<length ts. ts ! i * 10 ^ (length ts - Suc i)) = v"
    "decimal v = map ((!) ''0123456789'') ts"
    using decimal_positional [of v] by (elim exE conjE)
  have u: "unknown_network (parseInt16 (p @ ds))
      = \<lparr>id' = Num (int v),
         name = ''Unknown Network ('' @ map ((!) ''0123456789'') ts @ '')''\<rparr>"
    using unknown_network_exact [OF assms(5)] by (simp only: p ts(5))
  have hl: "\<forall>l. network (run_chain_listener l (p @ ds) w)
             = Some \<lparr>id' = Num (int v),
                     name = ''Unknown Network ('' @ map ((!) ''0123456789'') ts @ '')''\<rparr>"
    by (simp only: network_run_chain_listener u) simp
  have ev: "chainChanged w \<noteq> [] \<longrightarrow>
        network (emit_chainChanged (p @ ds) w)
          = Some \<lparr>id' = Num (int v),
                  name = ''Unknown Network ('' @ map ((!) ''0123456789'') ts @ '')''\<rparr>"
    by (simp add: emit_chainChanged_def network_fold_chain_listeners u)
  have first: "\<exists>ts. ts \<noteq> [] \<and> list_all (\<lambda>d. d < 10) ts \<and> (hd ts = 0 \<longrightarrow> ts = [0]) \<and>
        (\<Sum>i<length ts. ts ! i * 10 ^ (length ts - Suc i)) = v \<and>
        (\<forall>l. network (run_chain_listener l (p @ ds) w)
                = Some \<lparr>id' = Num (int v),
                        name = ''Unknown Network ('' @ map ((!) ''0123456789'') ts @ '')''\<rparr>) \<and>
        (chainChanged w \<noteq> [] \<longrightarrow>
           network (emit_chainChanged (p @ ds) w)
             = Some \<lparr>id' = Num (int v),
                     name = ''Unknown Network ('' @ map ((!) ''0123456789'') ts @ '')''\<rparr>)"
    using ts(1-4) hl ev by (intro exI [where x = ts] conjI)
  have h1: "\<forall>a. a \<noteq> [] \<longrightarrow>
        run_chain_listener (HandleChainChanged (Some a)) chainId w
          = fetchWalletData a Detached
              (w\<lparr>network := Some (unknown_network (parseInt16 chainId))\<rparr>)"
    by (simp add: truthy_def Let_def)
  have c: "pending (run_chain_listener ConnectChainChanged chainId w) = pending w"
    "loading (run_chain_listener ConnectChainChanged chainId w) = loading w"
    by (simp_all add: Let_def)
  have h2: "\<forall>a. walletAddress (run es (mount (init eth sel))) = Some a \<and> a \<noteq> [] \<longrightarrow>
        loading (emit_chainChanged chainId (run es (mount (init eth sel)))) \<and>
        (\<exists>ts. pending (emit_chainChanged chainId (run es (mount (init eth sel))))
                = pending (run es (mount (init eth sel))) @ ts \<and>
              GetBalance a Detached \<in> set ts)"
    using emit_chainChanged_refreshes [OF reachable_listener_registered] by blast
  show ?thesis
    using first h1 c h2 by (intro conjI)
qed

theorem chainChanged_listeners_witness:
  "(''0x'' = [] \<or> ''0x'' = ''0x'' \<or> ''0x'' = ''0X'') \<and> ''89'' \<noteq> [] \<and>
   list_all2 (\<lambda>c d. d < 16 \<and>
      (c = ''0123456789abcdef'' ! d \<or> c = ''0123456789ABCDEF'' ! d)) ''89'' [8, 9 :: nat] \<and>
   (137 :: nat) = (\<Sum>i<length [8, 9 :: nat]. [8, 9] ! i * 16 ^ (length [8, 9 :: nat] - Suc i)) \<and>
   (137 :: nat) \<le> 2 ^ 53 \<and>
   network (run_chain_listener ConnectChainChanged ''0x89'' example_session)
     = Some \<lparr>id' = Num 137, name = ''Unknown Network (137)''\<rparr> \<and>
   pending (run_chain_listener ConnectChainChanged ''0x89'' example_session)
     = pending example_session \<and>
   walletAddress
     (run [ClickConnect, Settle 0 (Accounts [''0xA'']), Settle 0 (Balance ''1.0''),
           Settle 0 (Network 1 ''mainnet'')] (mount (init True None))) = Some ''0xA'' \<and>
   loading
     (emit_chainChanged ''0x89''
        (run [ClickConnect, Settle 0 (Accounts [''0xA'']), Settle 0 (Balance ''1.0''),
              Settle 0 (Network 1 ''mainnet'')] (mount (init True None)))) \<and>
   (\<exists>ts. pending
           (emit_chainChanged ''0x89''
              (run [ClickConnect, Settle 0 (Accounts [''0xA'']), Settle 0 (Balance ''1.0''),
                    Settle 0 (Network 1 ''mainnet'')] (mount (init True None))))
         = pending
             (run [ClickConnect, Settle 0 (Accounts [''0xA'']), Settle 0 (Balance ''1.0''),
                   Settle 0 (Network 1 ''mainnet'')] (mount (init True None))) @ ts \<and>
       GetBalance ''0xA'' Detached \<in> set ts)"
proof -
  let ?es = "[ClickConnect, Settle 0 (Accounts [''0xA'']), Settle 0 (Balance ''1.0''),
              Settle 0 (Network 1 ''mainnet'')]"
  have h1: "''0x'' = [] \<or> ''0x'' = ''0x'' \<or> ''0x'' = ''0X''"
    by simp
  have h2: "''89'' \<noteq> []"
    by simp
  have h3: "list_all2 (\<lambda>c d. d < 16 \<and>
      (c = ''0123456789abcdef'' ! d \<or> c = ''0123456789ABCDEF'' ! d)) ''89'' [8, 9 :: nat]"
    by simp
  have h4: "(137 :: nat) = (\<Sum>i<length [8, 9 :: nat]. [8, 9] ! i * 16 ^ (length [8, 9 :: nat] - Suc i))"
    by (simp add: lessThan_Suc)
  have h5: "(137 :: nat) \<le> 2 ^ 53"
    by simp
  note t = chainChanged_listeners
    [OF h1 h2 h3 h4 h5, where w = example_session and chainId = "''0x89''" and es = ?es
       and eth = True and sel = None, THEN conjunct2]
  have p: "parseInt16 ''0x89'' = Num 137"
    by (simp add: parseInt16_def is_ws_def is_hex_def hex_digit_def hex_value_def to_number_def
        round_double_def)
  have n: "number_to_string (Num 137) = ''137''"
    by (simp add: number_to_string_def double_digits_def decimal.simps)
  have net: "network (run_chain_listener ConnectChainChanged ''0x89'' example_session)
     = Some \<lparr>id' = Num 137, name = ''Unknown Network (137)''\<rparr>"
    by (simp add: p n unknown_network_def)
  have m: "pending (mount (init True None)) = []"
    by (simp add: mount_def init_def commit_def truthy_def Let_def)
  have r: "run ?es (mount (init True None)) = example_session"
    by (simp add: connectWallet_to_end_def m)
  have a: "walletAddress (run ?es (mount (init True None))) = Some ''0xA''"
    unfolding r example_session_state by simp
  show ?thesis
    using h1 h2 h3 h4 h5 net a t by blast
qed

subsection \<open>Listeners registered by connect calls\<close>

lemma length_remove1_mem: "x \<in> set xs \<Longrightarrow> Suc (length (remove1 x xs)) = length xs"
  by (induction xs) auto

lemma filter_connect_remove1:
  "filter (\<lambda>l. l = ConnectChainChanged) (remove1 (HandleChainChanged d) xs)
     = filter (\<lambda>l. l = ConnectChainChanged) xs"
  by (induction xs) auto

lemma commit_id: "walletAddress w = effectDep w \<Longrightarrow> commit w = w"
  by (simp add: commit_def)

lemma commit_accountsChanged: "accountsChanged (commit w) = accountsChanged w"
  by (simp add: commit_def)

lemma commit_pending: "pending (commit w) = pending w"
  by (simp add: commit_def)

lemma commit_loading: "loading (commit w) = loading w"
  by (simp add: commit_def)

lemma commit_effectDep: "effectDep (commit w) = walletAddress w"
  by (simp add: commit_def)

lemma commit_walletAddress: "walletAddress (commit w) = walletAddress w"
  by (simp add: commit_def)

lemma commit_ethereum: "ethereum (commit w) = ethereum w"
  by (simp add: commit_def)

lemma commit_chain_mem:
  "ethereum w \<Longrightarrow> HandleChainChanged (effectDep w) \<in> set (chainChanged w) \<Longrightarrow>
   HandleChainChanged (walletAddress w) \<in> set (chainChanged (commit w))"
  by (simp add: commit_def)

lemma commit_chain_length:
  "HandleChainChanged (effectDep w) \<in> set (chainChanged w) \<Longrightarrow>
   length (chainChanged (commit w)) = length (chainChanged w)"
  by (simp add: commit_def length_remove1_mem)

lemma commit_chain_filter:
  "filter (\<lambda>l. l = ConnectChainChanged) (chainChanged (commit w))
     = filter (\<lambda>l. l = ConnectChainChanged) (chainChanged w)"
  by (simp add: commit_def filter_connect_remove1)

lemma settle_at_last:
  "pending w = p @ [t] \<Longrightarrow> fits t r \<Longrightarrow>
   settle_at (length p) r w = settle t r (w\<lparr>pending := p\<rparr>)"
  by (simp add: settle_at_def)

lemma settle_at_none: "pending w = p \<Longrightarrow> settle_at (length p) r w = w"
  by (simp add: settle_at_def)

lemma step_connect:
  "ethereum w \<Longrightarrow> walletAddress w = effectDep w \<Longrightarrow>
   step ClickConnect w = w\<lparr>loading := True, pending := pending w @ [RequestAccounts]\<rparr>"
  by (simp add: step_def connectWallet_def commit_def)

lemma step_accounts:
  "step (Settle (length p) (Accounts (a # as))) (w\<lparr>loading := True, pending := p @ [RequestAccounts]\<rparr>)
   = commit (w\<lparr>walletAddress := Some a, loading := True,
               pending := p @ [GetBalance a ConnectWallet]\<rparr>)"
  by (simp add: step_def settle_at_def fetchWalletData_def)

lemma settle_balance_fields:
  "ethereum (settle (GetBalance a k) (Balance t) w) = ethereum w"
  "walletAddress (settle (GetBalance a k) (Balance t) w) = walletAddress w"
  "effectDep (settle (GetBalance a k) (Balance t) w) = effectDep w"
  "accountsChanged (settle (GetBalance a k) (Balance t) w) = accountsChanged w"
  "chainChanged (settle (GetBalance a k) (Balance t) w) = chainChanged w"
  "pending (settle (GetBalance a k) (Balance t) w) = pending w @ [GetNetwork k]"
  by simp_all

lemma after_fetch_connect_fields:
  "ethereum (after_fetch ConnectWallet w) = ethereum w"
  "walletAddress (after_fetch ConnectWallet w) = walletAddress w"
  "effectDep (after_fetch ConnectWallet w) = effectDep w"
  "accountsChanged (after_fetch ConnectWallet w) = accountsChanged w @ [ConnectAccountsChanged]"
  "chainChanged (after_fetch ConnectWallet w) = chainChanged w @ [ConnectChainChanged]"
  "pending (after_fetch ConnectWallet w) = pending w"
  "loading (after_fetch ConnectWallet w) = False"
  by (simp_all add: after_fetch_def)

lemma fetch_failed_connect_fields:
  "ethereum (fetch_failed ConnectWallet w) = ethereum w"
  "walletAddress (fetch_failed ConnectWallet w) = walletAddress w"
  "effectDep (fetch_failed ConnectWallet w) = effectDep w"
  "accountsChanged (fetch_failed ConnectWallet w) = accountsChanged w @ [ConnectAccountsChanged]"
  "chainChanged (fetch_failed ConnectWallet w) = chainChanged w @ [ConnectChainChanged]"
  "pending (fetch_failed ConnectWallet w) = pending w"
  "loading (fetch_failed ConnectWallet w) = False"
  by (simp_all add: fetch_failed_def after_fetch_def)

text \<open>
  One successful connect call on a component whose effect is up to date: the effect stays
  up to date, and each event has exactly one listener more, the new one at the end.
\<close>

lemma connect_once:
  assumes reg: "effect_registered w" and ok: "successful (ra, rb, rn)"
  shows "effect_registered (connectWallet_to_end ra rb rn w) \<and>
     accountsChanged (connectWallet_to_end ra rb rn w)
       = accountsChanged w @ [ConnectAccountsChanged] \<and>
     length (chainChanged (connectWallet_to_end ra rb rn w)) = Suc (length (chainChanged w)) \<and>
     filter (\<lambda>l. l = ConnectChainChanged) (chainChanged (connectWallet_to_end ra rb rn w))
       = filter (\<lambda>l. l = ConnectChainChanged) (chainChanged w) @ [ConnectChainChanged]"
proof -
  obtain a as where ra: "ra = Accounts (a # as)"
    using ok by (cases "(ra, rb, rn)" rule: successful.cases) auto
  define p where "p = pending w"
  have pw: "pending w = p" by (simp add: p_def)
  define V where
    "V = w\<lparr>walletAddress := Some a, loading := True, pending := p @ [GetBalance a ConnectWallet]\<rparr>"
  define W where "W = commit V"
  have eth: "ethereum w" and com: "walletAddress w = effectDep w"
    and mem: "HandleChainChanged (effectDep w) \<in> set (chainChanged w)"
    using reg by (simp_all add: effect_registered_def)
  have W2: "step (Settle (length p) ra) (step ClickConnect w) = W"
    using eth com by (simp add: step_connect ra pw step_accounts W_def V_def)
  have Wreg: "effect_registered W"
    using eth mem commit_chain_mem [of V]
    by (simp add: effect_registered_def W_def commit_ethereum commit_effectDep commit_walletAddress)
       (simp add: V_def)
  have Wacc: "accountsChanged W = accountsChanged w"
    by (simp add: W_def commit_accountsChanged V_def)
  have Wlen: "length (chainChanged W) = length (chainChanged w)"
    using mem commit_chain_length [of V] by (simp add: W_def V_def)
  have Wfil: "filter (\<lambda>l. l = ConnectChainChanged) (chainChanged W)
       = filter (\<lambda>l. l = ConnectChainChanged) (chainChanged w)"
    using commit_chain_filter [of V] by (simp add: W_def V_def)
  have Wpen: "pending W = p @ [GetBalance a ConnectWallet]"
    by (simp add: W_def commit_pending V_def)
  have Wcom: "walletAddress W = effectDep W"
    using Wreg by (simp add: effect_registered_def)
  have unfold: "connectWallet_to_end ra rb rn w
      = step (Settle (length p) rn) (step (Settle (length p) rb) W)"
    using W2 by (simp add: connectWallet_to_end_def run_def pw Let_def)
  consider (bn) t c n where "rb = Balance t" "rn = Network c n"
    | (br) t e where "rb = Balance t" "rn = Rejected e"
    | (r) e where "rb = Rejected e"
    using ok ra by (cases "(ra, rb, rn)" rule: successful.cases) auto
  then show ?thesis
  proof cases
    case r
    define X where "X = fetch_failed ConnectWallet (W\<lparr>pending := p\<rparr>)"
    have s3: "settle_at (length p) rb W = X"
      using Wpen r by (simp add: settle_at_last X_def)
    have Xf: "ethereum X = ethereum W" "walletAddress X = walletAddress W"
      "effectDep X = effectDep W"
      "accountsChanged X = accountsChanged W @ [ConnectAccountsChanged]"
      "chainChanged X = chainChanged W @ [ConnectChainChanged]" "pending X = p"
      unfolding X_def by (simp_all add: fetch_failed_connect_fields)
    have c3: "step (Settle (length p) rb) W = X"
      using s3 Xf Wcom by (simp add: step_def commit_id)
    have c4: "step (Settle (length p) rn) X = X"
      using Xf Wcom by (simp add: step_def settle_at_none commit_id)
    show ?thesis
      using Wreg Wacc Wlen Wfil Xf by (simp add: unfold c3 c4 effect_registered_def)
  next
    case bn
    define Y where "Y = settle (GetBalance a ConnectWallet) (Balance t) (W\<lparr>pending := p\<rparr>)"
    have s3: "settle_at (length p) rb W = Y"
      using Wpen bn by (simp add: settle_at_last Y_def)
    have Yf: "ethereum Y = ethereum W" "walletAddress Y = walletAddress W"
      "effectDep Y = effectDep W" "accountsChanged Y = accountsChanged W"
      "chainChanged Y = chainChanged W" "pending Y = p @ [GetNetwork ConnectWallet]"
      unfolding Y_def by (simp_all only: settle_balance_fields) simp_all
    have c3: "step (Settle (length p) rb) W = Y"
      using s3 Yf Wcom by (simp add: step_def commit_id)
    define X where
      "X = after_fetch ConnectWallet
             (Y\<lparr>pending := p, network := Some \<lparr>id' = to_number c, name = n\<rparr>, error := None,
                loading := False\<rparr>)"
    have s4: "settle_at (length p) rn Y = X"
      using Yf bn by (simp add: settle_at_last X_def)
    have Xf: "ethereum X = ethereum Y" "walletAddress X = walletAddress Y"
      "effectDep X = effectDep Y"
      "accountsChanged X = accountsChanged Y @ [ConnectAccountsChanged]"
      "chainChanged X = chainChanged Y @ [ConnectChainChanged]" "pending X = p"
      unfolding X_def by (simp_all add: after_fetch_connect_fields)
    have c4: "step (Settle (length p) rn) Y = X"
      using s4 Xf Yf Wcom by (simp add: step_def commit_id)
    show ?thesis
      using Wreg Wacc Wlen Wfil Xf Yf by (simp add: unfold c3 c4 effect_registered_def)
  next
    case br
    define Y where "Y = settle (GetBalance a ConnectWallet) (Balance t) (W\<lparr>pending := p\<rparr>)"
    have s3: "settle_at (length p) rb W = Y"
      using Wpen br by (simp add: settle_at_last Y_def)
    have Yf: "ethereum Y = ethereum W" "walletAddress Y = walletAddress W"
      "effectDep Y = effectDep W" "accountsChanged Y = accountsChanged W"
      "chainChanged Y = chainChanged W" "pending Y = p @ [GetNetwork ConnectWallet]"
      unfolding Y_def by (simp_all only: settle_balance_fields) simp_all
    have c3: "step (Settle (length p) rb) W = Y"
      using s3 Yf Wcom by (simp add: step_def commit_id)
    define X where "X = fetch_failed ConnectWallet (Y\<lparr>pending := p\<rparr>)"
    have s4: "settle_at (length p) rn Y = X"
      using Yf br by (simp add: settle_at_last X_def)
    have Xf: "ethereum X = ethereum Y" "walletAddress X = walletAddress Y"
      "effectDep X = effectDep Y"
      "accountsChanged X = accountsChanged Y @ [ConnectAccountsChanged]"
      "chainChanged X = chainChanged Y @ [ConnectChainChanged]" "pending X = p"
      unfolding X_def by (simp_all add: fetch_failed_connect_fields)
    have c4: "step (Settle (length p) rn) Y = X"
      using s4 Xf Yf Wcom by (simp add: step_def commit_id)
    show ?thesis
      using Wreg Wacc Wlen Wfil Xf Yf by (simp add: unfold c3 c4 effect_registered_def)
  qed
qed

lemma connects_accumulate:
  "effect_registered w \<Longrightarrow> list_all successful cs \<Longrightarrow>
   effect_registered (connects cs w) \<and>
   accountsChanged (connects cs w)
     = accountsChanged w @ replicate (length cs) ConnectAccountsChanged \<and>
   length (chainChanged (connects cs w)) = length (chainChanged w) + length cs \<and>
   filter (\<lambda>l. l = ConnectChainChanged) (chainChanged (connects cs w))
     = filter (\<lambda>l. l = ConnectChainChanged) (chainChanged w)
         @ replicate (length cs) ConnectChainChanged"
proof (induction cs arbitrary: w)
  case Nil
  then show ?case by simp
next
  case (Cons c cs)
  obtain ra rb rn where c: "c = (ra, rb, rn)"
    by (cases c) auto
  have ok: "successful (ra, rb, rn)" and rest: "list_all successful cs"
    using Cons.prems(2) by (simp_all add: c)
  note one = connect_once [OF Cons.prems(1) ok]
  note ih = Cons.IH [OF one [THEN conjunct1] rest]
  show ?case
    using one ih by (simp add: c replicate_app_Cons_same)
qed

lemma mount_effect_registered:
  "effect_registered (mount (init True sel)) \<and>
   accountsChanged (mount (init True sel)) = [] \<and>
   length (chainChanged (mount (init True sel))) = 1 \<and>
   filter (\<lambda>l. l = ConnectChainChanged) (chainChanged (mount (init True sel))) = []"
  by (simp add: effect_registered_def mount_def init_def commit_def fetchWalletData_def Let_def)

text \<open>
  Lines 135-136: with a provider present a disconnect removes every listener of both
  events, whoever registered it.
\<close>

lemma handleDisconnect_removes_listeners:
  "ethereum w \<Longrightarrow>
   accountsChanged (handleDisconnect w) = [] \<and> chainChanged (handleDisconnect w) = []"
  by (simp add: handleDisconnect_def handleClose_def Let_def)

text \<open>
  C7, as stated, fails: after mounting with a provider and one successful connect the
  wallet holds one \<^verbatim>\<open>accountsChanged\<close> listener but two \<^verbatim>\<open>chainChanged\<close> listeners, the one
  of the effect of lines 44-63 and the one of line 111.
\<close>

theorem one_connect_two_chain_listeners:
  "length (accountsChanged example_session) = 1 \<and>
   length (chainChanged example_session) = 2 \<and>
   chainChanged example_session = [HandleChainChanged (Some ''0xA''), ConnectChainChanged]"
  unfolding example_session_state by simp

text \<open>
  C7, amended: a successful connect call, made while the component's effect is up to
  date, adds one listener to each event and removes none of those that earlier connect
  calls registered; so \<open>n\<close> successful connect calls in a row add \<open>n\<close> listeners to each
  event. On a freshly mounted component with a provider the wallet then holds \<open>n\<close>
  listeners for \<^verbatim>\<open>accountsChanged\<close> and \<open>n + 1\<close> for \<^verbatim>\<open>chainChanged\<close>: the \<open>n\<close> of the
  connect calls and the one the effect keeps registered.
\<close>

theorem connects_accumulate_listeners:
  "list_all successful cs \<Longrightarrow>
   (effect_registered w \<longrightarrow>
      accountsChanged (connects cs w)
        = accountsChanged w @ replicate (length cs) ConnectAccountsChanged \<and>
      length (chainChanged (connects cs w)) = length (chainChanged w) + length cs \<and>
      filter (\<lambda>l. l = ConnectChainChanged) (chainChanged (connects cs w))
        = filter (\<lambda>l. l = ConnectChainChanged) (chainChanged w)
            @ replicate (length cs) ConnectChainChanged) \<and>
   accountsChanged (connects cs (mount (init True sel)))
     = replicate (length cs) ConnectAccountsChanged \<and>
   length (chainChanged (connects cs (mount (init True sel)))) = Suc (length cs) \<and>
   filter (\<lambda>l. l = ConnectChainChanged) (chainChanged (connects cs (mount (init True sel))))
     = replicate (length cs) ConnectChainChanged"
proof -
  assume ok: "list_all successful cs"
  note m = mount_effect_registered [of sel]
  note a = connects_accumulate [OF m [THEN conjunct1] ok]
  have g: "effect_registered w \<longrightarrow>
      accountsChanged (connects cs w)
        = accountsChanged w @ replicate (length cs) ConnectAccountsChanged \<and>
      length (chainChanged (connects cs w)) = length (chainChanged w) + length cs \<and>
      filter (\<lambda>l. l = ConnectChainChanged) (chainChanged (connects cs w))
        = filter (\<lambda>l. l = ConnectChainChanged) (chainChanged w)
            @ replicate (length cs) ConnectChainChanged"
    using connects_accumulate [OF _ ok, of w] by blast
  show ?thesis
    using g a m by simp
qed

theorem connects_accumulate_listeners_witness:
  "list_all successful
     [(Accounts [''0xA''], Balance ''1.0'', Network 1 ''mainnet''),
      (Accounts [''0xB''], Rejected (Error ''timeout''), Rejected (Error ''timeout''))] \<and>
   effect_registered (mount (init True None)) \<and>
   accountsChanged
     (connects
        [(Accounts [''0xA''], Balance ''1.0'', Network 1 ''mainnet''),
         (Accounts [''0xB''], Rejected (Error ''timeout''), Rejected (Error ''timeout''))]
        (mount (init True None))) = [ConnectAccountsChanged, ConnectAccountsChanged] \<and>
   length
     (chainChanged
        (connects
           [(Accounts [''0xA''], Balance ''1.0'', Network 1 ''mainnet''),
            (Accounts [''0xB''], Rejected (Error ''timeout''), Rejected (Error ''timeout''))]
           (mount (init True None)))) = 3"
proof -
  have ok: "list_all successful
     [(Accounts [''0xA''], Balance ''1.0'', Network 1 ''mainnet''),
      (Accounts [''0xB''], Rejected (Error ''timeout''), Rejected (Error ''timeout''))]"
    by simp
  have reg: "effect_registered (mount (init True None))"
    by (simp add: mount_effect_registered)
  show ?thesis
    using connects_accumulate_listeners [OF ok, of "mount (init True None)" None] ok reg
    by (simp del: connects.simps add: mount_effect_registered)
qed

subsection \<open>The loading flag\<close>

lemma settle_in_flight: "fits t r \<Longrightarrow> loading_in_flight (settle t r w)"
  by (cases "(t, r, w)" rule: settle.cases)
     (auto simp: loading_in_flight_def fetchWalletData_def fetch_failed_def after_fetch_def
           split: list.splits cont.splits)

lemma settle_at_in_flight: "loading_in_flight w \<Longrightarrow> loading_in_flight (settle_at i r w)"
  by (simp add: settle_at_def settle_in_flight)

lemma accounts_listener_in_flight:
  "loading_in_flight w \<Longrightarrow> loading_in_flight (run_accounts_listener l newAccounts w)"
  by (cases l)
     (auto simp: loading_in_flight_def fetchWalletData_def handleDisconnect_def handleClose_def
           Let_def split: list.splits)

lemma chain_listener_in_flight:
  "loading_in_flight w \<Longrightarrow> loading_in_flight (run_chain_listener l c w)"
  by (auto simp: loading_in_flight_def pending_run_chain_listener loading_run_chain_listener)

lemma fold_accounts_listeners_in_flight:
  "loading_in_flight w \<Longrightarrow>
   loading_in_flight (fold (\<lambda>l. run_accounts_listener l newAccounts) ls w)"
  by (induction ls arbitrary: w) (simp_all add: accounts_listener_in_flight)

lemma fold_chain_listeners_in_flight:
  "loading_in_flight w \<Longrightarrow> loading_in_flight (fold (\<lambda>l. run_chain_listener l c) ls w)"
  by (induction ls arbitrary: w) (simp_all add: chain_listener_in_flight)

lemma handle_in_flight:
  assumes "loading_in_flight w"
  shows "loading_in_flight (handle e w)"
proof (cases e)
  case (Settle i r)
  then show ?thesis using assms by (simp add: settle_at_in_flight)
next
  case (EmitAccountsChanged newAccounts)
  then show ?thesis
    using assms by (simp add: emit_accountsChanged_def fold_accounts_listeners_in_flight)
next
  case (EmitChainChanged c)
  then show ?thesis
    using assms by (simp add: emit_chainChanged_def fold_chain_listeners_in_flight)
qed (use assms in \<open>auto simp: loading_in_flight_def connectWallet_def handleClick_def
      handleClose_def copyToClipboard_def handleDisconnect_def elapse_def Let_def\<close>)

lemma step_in_flight: "loading_in_flight w \<Longrightarrow> loading_in_flight (step e w)"
  using handle_in_flight [of w e]
  by (simp add: step_def loading_in_flight_def commit_loading commit_pending)

lemma run_in_flight: "loading_in_flight w \<Longrightarrow> loading_in_flight (run es w)"
  unfolding run_def by (induction es arbitrary: w) (simp_all add: step_in_flight)

lemma mount_in_flight: "loading_in_flight (mount (init eth sel))"
  by (simp add: loading_in_flight_def mount_def init_def commit_loading commit_pending
      fetchWalletData_def Let_def)

text \<open>A step that ends a call, so that fewer calls are suspended, leaves the flag cleared.\<close>

lemma settle_ends_call:
  "fits t r \<Longrightarrow> length (pending (settle t r w)) \<le> length (pending w) \<Longrightarrow>
   \<not> loading (settle t r w)"
  by (cases "(t, r, w)" rule: settle.cases)
     (auto simp: fetchWalletData_def fetch_failed_def after_fetch_def
           split: list.splits cont.splits)

lemma settle_at_ends_call:
  assumes "length (pending (settle_at i r w)) < length (pending w)"
  shows "\<not> loading (settle_at i r w)"
proof (cases "i < length (pending w) \<and> fits (pending w ! i) r")
  case False
  then have "settle_at i r w = w"
    by (auto simp: settle_at_def)
  then show ?thesis using assms by simp
next
  case True
  let ?w = "w\<lparr>pending := take i (pending w) @ drop (Suc i) (pending w)\<rparr>"
  have eq: "settle_at i r w = settle (pending w ! i) r ?w"
    using True by (simp add: settle_at_def)
  have "Suc (length (pending ?w)) = length (pending w)"
    using True by simp arith
  then have "length (pending (settle (pending w ! i) r ?w)) \<le> length (pending ?w)"
    using assms eq by simp
  then show ?thesis
    using True eq settle_ends_call by simp
qed

lemma pending_accounts_listener_le:
  "length (pending w) \<le> length (pending (run_accounts_listener l newAccounts w))"
  by (cases l)
     (simp add: fetchWalletData_def handleDisconnect_def handleClose_def Let_def
           split: list.splits)

lemma pending_fold_accounts_listeners_le:
  "length (pending w) \<le> length (pending (fold (\<lambda>l. run_accounts_listener l newAccounts) ls w))"
proof (induction ls arbitrary: w)
  case Nil
  show ?case by simp
next
  case (Cons l ls)
  show ?case
    using pending_accounts_listener_le [of w l newAccounts]
      Cons.IH [of "run_accounts_listener l newAccounts w"]
    by simp
qed

lemma handle_ends_call:
  assumes "length (pending (handle e w)) < length (pending w)"
  shows "\<not> loading (handle e w)"
proof (cases e)
  case (Settle i r)
  then show ?thesis using assms by (simp add: settle_at_ends_call)
next
  case (EmitAccountsChanged newAccounts)
  then show ?thesis
    using assms pending_fold_accounts_listeners_le [of w newAccounts "accountsChanged w"]
    by (simp add: emit_accountsChanged_def)
next
  case (EmitChainChanged c)
  then show ?thesis
    using assms by (simp add: emit_chainChanged_def pending_fold_chain_listeners)
qed (use assms in \<open>auto simp: connectWallet_def handleClick_def handleClose_def
      copyToClipboard_def handleDisconnect_def elapse_def Let_def split: if_splits\<close>)

text \<open>Calls that receive their replies end, with the flag cleared.\<close>

lemma fetchWalletData_to_end_ends:
  assumes "fits (GetBalance address Detached) rb" and "fits (GetNetwork Detached) rn"
  shows "pending (fetchWalletData_to_end address rb rn w) = pending w \<and>
         \<not> loading (fetchWalletData_to_end address rb rn w)"
proof (cases rb)
  case (Rejected e)
  then show ?thesis
    by (simp add: fetchWalletData_to_end_def fetchWalletData_def settle_at_def fetch_failed_def
        after_fetch_def Let_def)
next
  case (Balance t)
  then show ?thesis
    using assms(2)
    by (cases rn)
       (simp_all add: fetchWalletData_to_end_def fetchWalletData_def settle_at_def
          fetch_failed_def after_fetch_def Let_def)
qed (use assms in simp_all)

lemma step_settle_none:
  "pending w = p \<Longrightarrow>
   pending (step (Settle (length p) r) w) = p \<and>
   loading (step (Settle (length p) r) w) = loading w"
  by (simp add: step_def settle_at_none commit_pending commit_loading)

lemma step_settle_last:
  "pending w = p @ [t] \<Longrightarrow> fits t r \<Longrightarrow>
   pending (step (Settle (length p) r) w) = pending (settle t r (w\<lparr>pending := p\<rparr>)) \<and>
   loading (step (Settle (length p) r) w) = loading (settle t r (w\<lparr>pending := p\<rparr>))"
  by (simp add: step_def settle_at_last commit_pending commit_loading)

lemma settle_end_pending:
  "pending w = p \<Longrightarrow>
   pending (settle (GetBalance a k) (Rejected e) w) = p \<and>
   \<not> loading (settle (GetBalance a k) (Rejected e) w) \<and>
   pending (settle (GetNetwork k) (Rejected e) w) = p \<and>
   \<not> loading (settle (GetNetwork k) (Rejected e) w) \<and>
   pending (settle (GetNetwork k) (Network c n) w) = p \<and>
   \<not> loading (settle (GetNetwork k) (Network c n) w) \<and>
   pending (settle RequestAccounts (Rejected e) w) = p \<and>
   \<not> loading (settle RequestAccounts (Rejected e) w) \<and>
   pending (settle RequestAccounts (Accounts []) w) = p \<and>
   \<not> loading (settle RequestAccounts (Accounts []) w)"
  by (cases k) (simp_all add: fetch_failed_def after_fetch_def)

lemma connectWallet_to_end_ends:
  assumes fa: "fits RequestAccounts ra" and fb: "fits (GetBalance [] ConnectWallet) rb"
    and fn: "fits (GetNetwork ConnectWallet) rn"
  shows "pending (connectWallet_to_end ra rb rn w) = pending w \<and>
         \<not> loading (connectWallet_to_end ra rb rn w)"
proof -
  define p where "p = pending w"
  define w1 where "w1 = step ClickConnect w"
  define w2 where "w2 = step (Settle (length p) ra) w1"
  define w3 where "w3 = step (Settle (length p) rb) w2"
  define w4 where "w4 = step (Settle (length p) rn) w3"
  have unfold: "connectWallet_to_end ra rb rn w = w4"
    by (simp add: connectWallet_to_end_def run_def Let_def w4_def w3_def w2_def w1_def p_def)
  have end4: "pending w4 = p \<and> \<not> loading w4" if "pending w3 = p" "\<not> loading w3"
    using that step_settle_none [of w3 p rn] by (simp add: w4_def)
  have end3: "pending w4 = p \<and> \<not> loading w4" if "pending w2 = p" "\<not> loading w2"
    using that step_settle_none [of w2 p rb] end4 by (simp add: w3_def)
  have goal: "pending w4 = p \<and> \<not> loading w4"
  proof (cases "ethereum w")
    case False
    then have "pending w1 = p" "\<not> loading w1"
      by (simp_all add: w1_def step_def connectWallet_def commit_pending commit_loading p_def)
    then have "pending w2 = p \<and> \<not> loading w2"
      using step_settle_none [of w1 p ra] by (simp add: w2_def)
    then show ?thesis using end3 by simp
  next
    case True
    then have p1: "pending w1 = p @ [RequestAccounts]"
      by (simp add: w1_def step_def connectWallet_def commit_pending p_def)
    note s2 = step_settle_last [OF p1 fa, folded w2_def]
    show ?thesis
    proof (cases ra)
      case (Rejected e)
      then show ?thesis
        using s2 settle_end_pending [of "w1\<lparr>pending := p\<rparr>" p] end3 by simp
    next
      case (Accounts accounts)
      show ?thesis
      proof (cases accounts)
        case Nil
        then show ?thesis
          using s2 Accounts settle_end_pending [of "w1\<lparr>pending := p\<rparr>" p] end3 by simp
      next
        case (Cons a as)
        have p2: "pending w2 = p @ [GetBalance a ConnectWallet]"
          using s2 Accounts Cons by (simp add: fetchWalletData_def)
        have fb': "fits (GetBalance a ConnectWallet) rb"
          using fb by (cases rb) simp_all
        note s3 = step_settle_last [OF p2 fb', folded w3_def]
        show ?thesis
        proof (cases rb)
          case (Rejected e)
          then show ?thesis
            using s3 settle_end_pending [of "w2\<lparr>pending := p\<rparr>" p] end4 by simp
        next
          case (Balance t)
          then have p3: "pending w3 = p @ [GetNetwork ConnectWallet]"
            using s3 by simp
          note s4 = step_settle_last [OF p3 fn, folded w4_def]
          show ?thesis
            using fn s4 settle_end_pending [of "w3\<lparr>pending := p\<rparr>" p]
            by (cases rn) simp_all
        qed (use fb in simp_all)
      qed
    qed (use fa in simp_all)
  qed
  show ?thesis
    using goal by (simp add: unfold p_def)
qed

text \<open>
  C9: in every state a mounted component can reach, whatever the events and their
  order, the loading flag is set only while some fetch or connect call is suspended; a
  step that ends a call, so that fewer calls are suspended than before, leaves the flag
  cleared; and a fetch call and a connect call that receive their replies, successful or
  not, end with the flag cleared and nothing of theirs left suspended.
\<close>

theorem loading_only_while_call_in_flight:
  "(loading (run es (mount (init eth sel))) \<longrightarrow> pending (run es (mount (init eth sel))) \<noteq> []) \<and>
   (length (pending (step e w)) < length (pending w) \<longrightarrow> \<not> loading (step e w)) \<and>
   (fits (GetBalance address Detached) rb \<and> fits (GetNetwork Detached) rn \<longrightarrow>
      pending (fetchWalletData_to_end address rb rn w) = pending w \<and>
      \<not> loading (fetchWalletData_to_end address rb rn w)) \<and>
   (fits RequestAccounts ra \<and> fits (GetBalance [] ConnectWallet) rb \<and>
    fits (GetNetwork ConnectWallet) rn \<longrightarrow>
      pending (connectWallet_to_end ra rb rn w) = pending w \<and>
      \<not> loading (connectWallet_to_end ra rb rn w))"
proof -
  have a: "loading (run es (mount (init eth sel))) \<longrightarrow> pending (run es (mount (init eth sel))) \<noteq> []"
    using run_in_flight [OF mount_in_flight, of es eth sel] by (simp add: loading_in_flight_def)
  have b: "length (pending (step e w)) < length (pending w) \<longrightarrow> \<not> loading (step e w)"
    using handle_ends_call [of e w] by (simp add: step_def commit_pending commit_loading)
  show ?thesis
    using a b fetchWalletData_to_end_ends [of address rb rn w]
      connectWallet_to_end_ends [of ra rb rn w]
    by blast
qed

theorem loading_only_while_call_in_flight_witness:
  "loading (run [ClickConnect] (mount (init True None))) \<and>
   pending (run [ClickConnect] (mount (init True None))) \<noteq> [] \<and>
   length (pending (step (Settle 0 (Accounts [])) (run [ClickConnect] (mount (init True None)))))
     < length (pending (run [ClickConnect] (mount (init True None)))) \<and>
   \<not> loading (step (Settle 0 (Accounts [])) (run [ClickConnect] (mount (init True None)))) \<and>
   fits (GetBalance ''0xA'' Detached) (Balance ''2.5'') \<and>
   fits (GetNetwork Detached) (Rejected (Error ''timeout'')) \<and>
   \<not> loading (fetchWalletData_to_end ''0xA'' (Balance ''2.5'') (Rejected (Error ''timeout''))
                (run [ClickConnect] (mount (init True None)))) \<and>
   fits RequestAccounts (Accounts [''0xA'']) \<and>
   fits (GetBalance [] ConnectWallet) (Balance ''2.5'') \<and>
   fits (GetNetwork ConnectWallet) (Rejected (Error ''timeout'')) \<and>
   \<not> loading (connectWallet_to_end (Accounts [''0xA'']) (Balance ''2.5'')
                (Rejected (Error ''timeout'')) (run [ClickConnect] (mount (init True None))))"
proof -
  have s: "run [ClickConnect] (mount (init True None))
      = (init True None)\<lparr>loading := True, pending := [RequestAccounts],
           chainChanged := [HandleChainChanged None]\<rparr>"
    by (simp add: run_def step_def commit_def mount_def init_def connectWallet_def Let_def truthy_def)
  have l: "loading (run [ClickConnect] (mount (init True None)))"
    "pending (run [ClickConnect] (mount (init True None))) = [RequestAccounts]"
    by (simp_all add: s)
  have d: "pending (step (Settle 0 (Accounts [])) (run [ClickConnect] (mount (init True None)))) = []"
    by (simp add: s step_def settle_at_def commit_pending)
  show ?thesis
    using loading_only_while_call_in_flight
      [of "[ClickConnect]" True None "Settle 0 (Accounts [])"
          "run [ClickConnect] (mount (init True None))" "''0xA''" "Balance ''2.5''"
          "Rejected (Error ''timeout'')" "Accounts [''0xA'']"]
      l d
    by simp
qed

end
